theory Spec2Isabelle
  imports Complex_Main "HOL-Library.Product_Lexorder"
begin

section \<open>Binary floating point\<close>

text \<open>
  The script \<^verbatim>\<open>analyze_csv_data.py\<close> computes with Python floats, which are IEEE 754
  binary64 numbers. A finite float is modelled by the rational it denotes; the result of
  an arithmetic operation is the exact result rounded to the nearest double, a tie to
  the double with the even significand. The two zeros are not told apart: no comparison,
  minimum, maximum or test for zero in the script distinguishes them.
\<close>

definition round_half_even :: "rat \<Rightarrow> int" where
  "round_half_even x =
     (let f = \<lfloor>x\<rfloor>; d = x - of_int f
      in if d < 1 / 2 then f
         else if 1 / 2 < d then f + 1
         else if even f then f else f + 1)"

text \<open>The number of binary digits of a natural number, Python's \<^verbatim>\<open>int.bit_length\<close>.\<close>

fun bit_length :: "nat \<Rightarrow> nat" where
  "bit_length n = (if n = 0 then 0 else Suc (bit_length (n div 2)))"

declare bit_length.simps [simp del]

text \<open>For \<open>0 < x\<close>, the exponent \<open>e\<close> with \<open>2 powi e \<le> x < 2 powi (e + 1)\<close>.\<close>

definition ilog2 :: "rat \<Rightarrow> int" where
  "ilog2 x =
     (if 1 \<le> x then int (bit_length (nat \<lfloor>x\<rfloor>)) - 1
      else - int (bit_length (nat (\<lceil>1 / x\<rceil> - 1))))"

text \<open>
  The doubles around \<open>0 < x\<close> are the multiples of \<open>2 powi ulp_exp x\<close>: a significand of
  53 bits, and the spacing of the subnormal numbers below \<open>2 powi (- 1022)\<close>.
\<close>

definition ulp_exp :: "rat \<Rightarrow> int" where
  "ulp_exp x = max (ilog2 x - 52) (- 1074)"

definition round_pos :: "rat \<Rightarrow> rat" where
  "round_pos x = of_int (round_half_even (x / 2 powi ulp_exp x)) * 2 powi ulp_exp x"

definition nearest :: "rat \<Rightarrow> rat" where
  "nearest x = (if x = 0 then 0 else if 0 < x then round_pos x else - round_pos (- x))"

text \<open>A Python float: a finite double, an infinity, or NaN. A missing cell is NaN.\<close>

datatype pyfloat = Finite rat | PosInf | NegInf | NaN

text \<open>Rounding to a float; a result of magnitude \<open>2 ^ 1024\<close> or more overflows.\<close>

definition fl :: "rat \<Rightarrow> pyfloat" where
  "fl x =
     (let y = nearest x
      in if 2 ^ 1024 \<le> y then PosInf else if y \<le> - (2 ^ 1024) then NegInf else Finite y)"

definition is_double :: "rat \<Rightarrow> bool" where
  "is_double x \<longleftrightarrow> fl x = Finite x"

text \<open>
  The finite doubles, as a type: the cells of the loaded tables. \<open>val\<close> is the number a
  double denotes, \<open>dbl\<close> the double a decimal numeral is read as (and zero where the
  numeral is out of range).
\<close>

typedef double = "{x. is_double x}"
  by (rule exI [of _ 0]) (simp add: is_double_def fl_def nearest_def)

setup_lifting type_definition_double

lift_definition val :: "double \<Rightarrow> rat" is "\<lambda>x. x" .

lift_definition dbl :: "rat \<Rightarrow> double"
  is "\<lambda>x. case fl x of Finite y \<Rightarrow> if is_double y then y else 0 | _ \<Rightarrow> 0"
proof -
  fix x :: rat
  have "is_double 0"
    by (simp add: is_double_def fl_def nearest_def)
  then show "is_double (case fl x of Finite y \<Rightarrow> if is_double y then y else 0 | _ \<Rightarrow> 0)"
    by (simp split: pyfloat.splits)
qed

definition of_double :: "double \<Rightarrow> pyfloat" where
  "of_double d = Finite (val d)"

section \<open>Operations on floats\<close>

text \<open>Python's \<^verbatim>\<open>a < b\<close> and \<^verbatim>\<open>a <= b\<close>: false when either side is NaN.\<close>

fun float_lt :: "pyfloat \<Rightarrow> pyfloat \<Rightarrow> bool" where
  "float_lt NaN _ = False"
| "float_lt _ NaN = False"
| "float_lt (Finite a) (Finite b) = (a < b)"
| "float_lt _ NegInf = False"
| "float_lt NegInf _ = True"
| "float_lt PosInf _ = False"
| "float_lt _ PosInf = True"

fun float_le :: "pyfloat \<Rightarrow> pyfloat \<Rightarrow> bool" where
  "float_le NaN _ = False"
| "float_le _ NaN = False"
| "float_le (Finite a) (Finite b) = (a \<le> b)"
| "float_le NegInf _ = True"
| "float_le _ NegInf = False"
| "float_le _ PosInf = True"
| "float_le PosInf _ = False"

text \<open>The infinity with the sign of a rational, NaN for zero.\<close>

definition signed_inf :: "rat \<Rightarrow> pyfloat" where
  "signed_inf s = (if 0 < s then PosInf else if s < 0 then NegInf else NaN)"

definition sign_of :: "pyfloat \<Rightarrow> rat" where
  "sign_of x = (case x of Finite a \<Rightarrow> sgn a | PosInf \<Rightarrow> 1 | NegInf \<Rightarrow> - 1 | NaN \<Rightarrow> 0)"

fun float_mul :: "pyfloat \<Rightarrow> pyfloat \<Rightarrow> pyfloat" where
  "float_mul NaN _ = NaN"
| "float_mul _ NaN = NaN"
| "float_mul (Finite a) (Finite b) = fl (a * b)"
| "float_mul x y = signed_inf (sign_of x * sign_of y)"

fun float_add :: "pyfloat \<Rightarrow> pyfloat \<Rightarrow> pyfloat" where
  "float_add NaN _ = NaN"
| "float_add _ NaN = NaN"
| "float_add (Finite a) (Finite b) = fl (a + b)"
| "float_add PosInf NegInf = NaN"
| "float_add NegInf PosInf = NaN"
| "float_add (Finite a) y = y"
| "float_add x _ = x"

fun float_neg :: "pyfloat \<Rightarrow> pyfloat" where
  "float_neg (Finite a) = Finite (- a)"
| "float_neg PosInf = NegInf"
| "float_neg NegInf = PosInf"
| "float_neg NaN = NaN"

definition float_sub :: "pyfloat \<Rightarrow> pyfloat \<Rightarrow> pyfloat" where
  "float_sub x y = float_add x (float_neg y)"

datatype error = KeyError string | ZeroDivisionError | TypeError

text \<open>
  The quotient of IEEE arithmetic for a divisor other than zero, and on top of it the
  two divisions the script uses: Python's \<^verbatim>\<open>/\<close> on floats, which raises on a zero
  divisor, and the division of two float columns of a frame, which gives an infinity or
  NaN there.
\<close>

fun ieee_div :: "pyfloat \<Rightarrow> pyfloat \<Rightarrow> pyfloat" where
  "ieee_div NaN _ = NaN"
| "ieee_div _ NaN = NaN"
| "ieee_div (Finite a) (Finite b) = fl (a / b)"
| "ieee_div (Finite a) _ = Finite 0"
| "ieee_div x (Finite b) = signed_inf (sign_of x * sgn b)"
| "ieee_div _ _ = NaN"

definition float_div :: "pyfloat \<Rightarrow> pyfloat \<Rightarrow> error + pyfloat" where
  "float_div x y = (if y = Finite 0 then Inl ZeroDivisionError else Inr (ieee_div x y))"

definition column_div :: "pyfloat \<Rightarrow> pyfloat \<Rightarrow> pyfloat" where
  "column_div x y =
     (if y = Finite 0 then (if x = NaN then NaN else signed_inf (sign_of x))
      else ieee_div x y)"

text \<open>
  Python's \<^verbatim>\<open>min(a, b)\<close> and \<^verbatim>\<open>max(a, b)\<close> keep the first argument unless the second
  is smaller, respectively larger.
\<close>

definition py_min :: "pyfloat \<Rightarrow> pyfloat \<Rightarrow> pyfloat" where
  "py_min a b = (if float_lt b a then b else a)"

definition py_max :: "pyfloat \<Rightarrow> pyfloat \<Rightarrow> pyfloat" where
  "py_max a b = (if float_lt a b then b else a)"

text \<open>
  Python's \<^verbatim>\<open>round(x, ndigits)\<close> on a float: the decimal with \<open>ndigits\<close> places nearest
  to the exact value of \<open>x\<close>, a tie to the even neighbour, read back as a float. An
  infinity or NaN is returned as it is.
\<close>

definition py_round :: "pyfloat \<Rightarrow> nat \<Rightarrow> pyfloat" where
  "py_round x ndigits =
     (case x of
        Finite a \<Rightarrow> fl (of_int (round_half_even (a * 10 ^ ndigits)) / 10 ^ ndigits)
      | _ \<Rightarrow> x)"

text \<open>
  \<^verbatim>\<open>.round(n)\<close> on a float column is numpy's: the cell times \<open>10 ^ n\<close>, rounded to an
  integer, a tie to the even one, and divided by \<open>10 ^ n\<close>, each step in floats.
\<close>

definition column_round :: "nat \<Rightarrow> pyfloat \<Rightarrow> pyfloat" where
  "column_round n x =
     (case float_mul x (Finite (10 ^ n)) of
        Finite a \<Rightarrow> ieee_div (Finite (of_int (round_half_even a))) (Finite (10 ^ n))
      | y \<Rightarrow> y)"

section \<open>The tables\<close>

text \<open>
  A table is the list of its rows, in the order of the frame. The numeric cells of a
  loaded table are finite doubles.
\<close>

type_synonym timestamp = int

record product =
  product_id :: nat
  product_name :: string
  current_price :: double
  min_price :: double
  max_price :: double

record inventory_row =
  inv_product_id :: nat
  inv_quantity_available :: double
  inv_stock_status :: string
  inv_reorder_point :: double

record demand_row =
  dm_product_id :: nat
  dm_date :: timestamp
  dm_demand_score :: double
  dm_conversion_rate :: double
  dm_purchase_count :: double

record competitor_price_row =
  cp_product_id :: nat
  cp_competitor_price :: double

text \<open>
  \<^verbatim>\<open>data\<close> is the dictionary \<^verbatim>\<open>load_data\<close> returns: a table whose file was not
  found has no entry, and \<^verbatim>\<open>data['products']\<close> then raises \<^verbatim>\<open>KeyError\<close>.
\<close>

record data =
  products :: "product list option"
  inventory :: "inventory_row list option"
  demand_metrics :: "demand_row list option"
  competitor_prices :: "competitor_price_row list option"

definition lookup :: "'a option \<Rightarrow> string \<Rightarrow> error + 'a" where
  "lookup table key = (case table of None \<Rightarrow> Inl (KeyError key) | Some t \<Rightarrow> Inr t)"

section \<open>Frame operations\<close>

text \<open>
  \<^verbatim>\<open>left.merge(right, on='product_id', how='left')\<close>: every row of the left frame, in
  its order, once for each row of the right frame with the same key, and once with
  missing cells when there is none.
\<close>

definition merge_left ::
  "('a \<Rightarrow> nat) \<Rightarrow> ('b \<Rightarrow> nat) \<Rightarrow> ('a \<Rightarrow> 'b option \<Rightarrow> 'c) \<Rightarrow> 'a list \<Rightarrow> 'b list \<Rightarrow> 'c list" where
  "merge_left lkey rkey combine left right =
     concat (map (\<lambda>l. case filter (\<lambda>r. rkey r = lkey l) right of
                          [] \<Rightarrow> [combine l None]
                        | ms \<Rightarrow> map (\<lambda>r. combine l (Some r)) ms) left)"

text \<open>
  \<^verbatim>\<open>frame.groupby('product_id')[column].mean().reset_index()\<close>: one row for each key
  of the frame, keys ascending, with the mean of the column over the key's rows. The
  mean of a group is computed by the library, in floats; the order and the compensation
  of its summation are not the script's, so the model takes the aggregate as the
  parameter \<open>agg\<close>.
\<close>

definition groupby_mean :: "(double list \<Rightarrow> pyfloat) \<Rightarrow> (nat \<times> double) list \<Rightarrow> (nat \<times> pyfloat) list" where
  "groupby_mean agg kvs =
     map (\<lambda>k. (k, agg (map snd (filter (\<lambda>kv. fst kv = k) kvs))))
       (sort (remdups (map fst kvs)))"

text \<open>
  One such aggregate, used for the examples: the sum from left to right, divided by the
  count. For the groups of the examples every mean is exact.
\<close>

definition column_mean :: "double list \<Rightarrow> pyfloat" where
  "column_mean xs =
     ieee_div (fold (\<lambda>x s. float_add s (of_double x)) xs (Finite 0)) (Finite (of_nat (length xs)))"

text \<open>\<^verbatim>\<open>demand['date'].max()\<close>; the maximum of an empty column is the missing value.\<close>

definition max_date :: "demand_row list \<Rightarrow> timestamp option" where
  "max_date demand = (case demand of [] \<Rightarrow> None | d # ds \<Rightarrow> Some (fold max (map dm_date ds) (dm_date d)))"

section \<open>Pricing recommendations\<close>

text \<open>
  A row of the frame \<^verbatim>\<open>reco\<close>: the product's columns, and the columns the three left
  merges add, which are missing (NaN) where the merge found no partner.
\<close>

record reco_row = product +
  quantity_available :: pyfloat
  stock_status :: "string option"
  demand_score :: pyfloat
  conversion_rate :: pyfloat
  avg_competitor_price :: pyfloat

datatype action = INCREASE | DECREASE

text \<open>
  The reason is a text built from the row; the model keeps which of the four texts it
  is and the cell that is formatted into it.
\<close>

datatype reason =
    High_demand_adequate_stock pyfloat
  | Low_demand_excess_inventory pyfloat
  | Price_above_competitors pyfloat
  | Low_stock_sustained_demand

text \<open>
  The dictionary appended to \<^verbatim>\<open>recommendations\<close>; the keys \<^verbatim>\<open>product_name\<close> and
  \<^verbatim>\<open>current_price\<close> are written \<open>rec_product_name\<close> and \<open>rec_current_price\<close>
  here, since the product has fields of these names.
\<close>

record recommendation =
  rec_product_name :: string
  rec_current_price :: double
  recommended_price :: pyfloat
  action :: action
  change_pct :: pyfloat
  reason :: "reason option"

text \<open>
  The tests of the four branches of the \<^verbatim>\<open>if\<close>/\<^verbatim>\<open>elif\<close> chain, in the order of
  the source. The thresholds 7.5, 50, 5, 100 and 6 are doubles themselves; a literal
  such as \<^verbatim>\<open>1.05\<close> is the double nearest to it.
\<close>

definition literal_1_05 :: pyfloat where
  "literal_1_05 = fl (105 / 100)"

definition literal_0_92 :: pyfloat where
  "literal_0_92 = fl (92 / 100)"

definition literal_0_98 :: pyfloat where
  "literal_0_98 = fl (98 / 100)"

definition literal_1_08 :: pyfloat where
  "literal_1_08 = fl (108 / 100)"

definition rule1_test :: "reco_row \<Rightarrow> bool" where
  "rule1_test row \<longleftrightarrow>
     float_lt (Finite (75 / 10)) (demand_score row) \<and> float_lt (Finite 50) (quantity_available row)"

definition rule2_test :: "reco_row \<Rightarrow> bool" where
  "rule2_test row \<longleftrightarrow>
     float_lt (demand_score row) (Finite 5) \<and> float_lt (Finite 100) (quantity_available row)"

definition rule3_test :: "reco_row \<Rightarrow> bool" where
  "rule3_test row \<longleftrightarrow>
     avg_competitor_price row \<noteq> NaN \<and>
     float_lt (float_mul (avg_competitor_price row) literal_1_05) (of_double (current_price row))"

definition rule4_test :: "reco_row \<Rightarrow> bool" where
  "rule4_test row \<longleftrightarrow>
     stock_status row = Some ''low_stock'' \<and> float_lt (Finite 6) (demand_score row)"

text \<open>
  The chain itself: the values of \<^verbatim>\<open>action\<close>, \<^verbatim>\<open>reason\<close> and
  \<^verbatim>\<open>recommended_price\<close> after it.
\<close>

definition apply_rules :: "reco_row \<Rightarrow> action option \<times> reason option \<times> pyfloat" where
  "apply_rules row =
     (if rule1_test row then
        (Some INCREASE, Some (High_demand_adequate_stock (demand_score row)),
         py_min (float_mul (of_double (current_price row)) literal_1_05)
           (of_double (max_price row)))
      else if rule2_test row then
        (Some DECREASE, Some (Low_demand_excess_inventory (demand_score row)),
         py_max (float_mul (of_double (current_price row)) literal_0_92)
           (of_double (min_price row)))
      else if rule3_test row then
        (Some DECREASE, Some (Price_above_competitors (avg_competitor_price row)),
         py_max (float_mul (avg_competitor_price row) literal_0_98)
           (of_double (min_price row)))
      else if rule4_test row then
        (Some INCREASE, Some Low_stock_sustained_demand,
         py_min (float_mul (of_double (current_price row)) literal_1_08)
           (of_double (max_price row)))
      else (None, None, of_double (current_price row)))"

text \<open>
  The dictionary of one recommendation. The percentage divides by the current price;
  the cells are Python floats, so a current price of zero raises.
\<close>

definition build_recommendation ::
  "reco_row \<Rightarrow> action \<Rightarrow> reason option \<Rightarrow> pyfloat \<Rightarrow> error + recommendation" where
  "build_recommendation row act rsn price =
     (case float_div (float_sub price (of_double (current_price row)))
             (of_double (current_price row)) of
        Inl e \<Rightarrow> Inl e
      | Inr ratio \<Rightarrow>
          Inr \<lparr> rec_product_name = product_name row,
                rec_current_price = current_price row,
                recommended_price = py_round price 2,
                action = act,
                change_pct = py_round (float_mul ratio (Finite 100)) 2,
                reason = rsn \<rparr>)"

text \<open>One pass of the loop over \<^verbatim>\<open>reco.iterrows()\<close>, on the list built so far.\<close>

definition loop_body :: "reco_row \<Rightarrow> recommendation list \<Rightarrow> error + recommendation list" where
  "loop_body row recommendations =
     (case apply_rules row of
        (None, _, _) \<Rightarrow> Inr recommendations
      | (Some act, rsn, price) \<Rightarrow>
          (case build_recommendation row act rsn price of
             Inl e \<Rightarrow> Inl e
           | Inr r \<Rightarrow> Inr (recommendations @ [r])))"

fun loop :: "reco_row list \<Rightarrow> recommendation list \<Rightarrow> error + recommendation list" where
  "loop [] recommendations = Inr recommendations"
| "loop (row # rows) recommendations =
     (case loop_body row recommendations of
        Inl e \<Rightarrow> Inl e
      | Inr recommendations' \<Rightarrow> loop rows recommendations')"

text \<open>\<^verbatim>\<open>demand[demand['date'] == demand['date'].max()]\<close>\<close>

definition latest_demand :: "demand_row list \<Rightarrow> demand_row list" where
  "latest_demand demand = filter (\<lambda>d. Some (dm_date d) = max_date demand) demand"

text \<open>The columns each of the three merges adds to a row.\<close>

definition cell :: "('a \<Rightarrow> double) \<Rightarrow> 'a option \<Rightarrow> pyfloat" where
  "cell column partner = (case partner of None \<Rightarrow> NaN | Some r \<Rightarrow> of_double (column r))"

definition with_inventory :: "product \<Rightarrow> inventory_row option \<Rightarrow> reco_row" where
  "with_inventory p i =
     \<lparr> product_id = product_id p, product_name = product_name p,
       current_price = current_price p, min_price = min_price p, max_price = max_price p,
       quantity_available = cell inv_quantity_available i,
       stock_status = map_option inv_stock_status i,
       demand_score = NaN, conversion_rate = NaN, avg_competitor_price = NaN \<rparr>"

definition with_demand :: "reco_row \<Rightarrow> demand_row option \<Rightarrow> reco_row" where
  "with_demand row d =
     row \<lparr> demand_score := cell dm_demand_score d,
           conversion_rate := cell dm_conversion_rate d \<rparr>"

definition with_avg_comp :: "reco_row \<Rightarrow> (nat \<times> pyfloat) option \<Rightarrow> reco_row" where
  "with_avg_comp row a =
     row \<lparr> avg_competitor_price := (case a of None \<Rightarrow> NaN | Some ka \<Rightarrow> snd ka) \<rparr>"

definition reco_frame ::
  "(double list \<Rightarrow> pyfloat) \<Rightarrow> product list \<Rightarrow> inventory_row list \<Rightarrow> demand_row list
     \<Rightarrow> competitor_price_row list \<Rightarrow> reco_row list" where
  "reco_frame agg ps invs demand comp_prices =
     (let avg_comp =
            groupby_mean agg (map (\<lambda>c. (cp_product_id c, cp_competitor_price c)) comp_prices);
          reco1 = merge_left product_id inv_product_id with_inventory ps invs;
          reco2 = merge_left product_id dm_product_id with_demand reco1 (latest_demand demand)
      in merge_left product_id fst with_avg_comp reco2 avg_comp)"

text \<open>
  \<^verbatim>\<open>reco_df.sort_values('change_pct', ascending=False)\<close>: the largest value first, and
  NaN last. The order pandas gives to records of equal \<^verbatim>\<open>change_pct\<close> is not fixed by
  its default sort; the model keeps them in the order of the list.
\<close>

definition descending_key :: "pyfloat \<Rightarrow> nat \<times> rat" where
  "descending_key x =
     (case x of PosInf \<Rightarrow> (0, 0) | Finite a \<Rightarrow> (1, - a) | NegInf \<Rightarrow> (2, 0) | NaN \<Rightarrow> (3, 0))"

definition sort_values_change_pct :: "recommendation list \<Rightarrow> recommendation list" where
  "sort_values_change_pct recommendations =
     sort_key (\<lambda>r. descending_key (change_pct r)) recommendations"

text \<open>
  The function prints the sorted frame, or a fixed line when the list is empty; the
  model returns the list that is printed.
\<close>

definition pricing_recommendations ::
  "(double list \<Rightarrow> pyfloat) \<Rightarrow> data \<Rightarrow> error + recommendation list" where
  "pricing_recommendations agg d =
     (case lookup (products d) ''products'' of Inl e \<Rightarrow> Inl e | Inr ps \<Rightarrow>
     (case lookup (inventory d) ''inventory'' of Inl e \<Rightarrow> Inl e | Inr invs \<Rightarrow>
     (case lookup (demand_metrics d) ''demand_metrics'' of Inl e \<Rightarrow> Inl e | Inr demand \<Rightarrow>
     (case lookup (competitor_prices d) ''competitor_prices'' of Inl e \<Rightarrow> Inl e | Inr comp_prices \<Rightarrow>
     (case loop (reco_frame agg ps invs demand comp_prices) [] of
        Inl e \<Rightarrow> Inl e
      | Inr recommendations \<Rightarrow> Inr (sort_values_change_pct recommendations))))))"

section \<open>Inventory alerts\<close>

text \<open>\<^verbatim>\<open>.fillna(v)\<close> and \<^verbatim>\<open>.replace([float('inf'), float('-inf')], v)\<close> on a cell.\<close>

definition fillna :: "pyfloat \<Rightarrow> pyfloat \<Rightarrow> pyfloat" where
  "fillna v x = (if x = NaN then v else x)"

definition replace_inf :: "pyfloat \<Rightarrow> pyfloat \<Rightarrow> pyfloat" where
  "replace_inf v x = (if x = PosInf \<or> x = NegInf then v else x)"

text \<open>
  A row of \<^verbatim>\<open>inv_analysis\<close> after both merges and \<^verbatim>\<open>.fillna(0)\<close>; the inventory
  columns carry the prefix \<open>ia_\<close> here.
\<close>

record inv_analysis_row = product +
  ia_quantity_available :: pyfloat
  ia_reorder_point :: pyfloat
  avg_daily_sales :: pyfloat

definition seven_days :: int where
  "seven_days = 7 * 86400 * 1000000000"

text \<open>\<^verbatim>\<open>demand[demand['date'] >= demand['date'].max() - timedelta(days=7)]\<close>\<close>

definition recent_demand :: "demand_row list \<Rightarrow> demand_row list" where
  "recent_demand demand =
     (case max_date demand of
        None \<Rightarrow> []
      | Some m \<Rightarrow> filter (\<lambda>d. m - seven_days \<le> dm_date d) demand)"

definition velocity :: "(double list \<Rightarrow> pyfloat) \<Rightarrow> demand_row list \<Rightarrow> (nat \<times> pyfloat) list" where
  "velocity agg demand =
     groupby_mean agg (map (\<lambda>d. (dm_product_id d, dm_purchase_count d)) (recent_demand demand))"

definition with_velocity ::
  "product \<times> inventory_row option \<Rightarrow> (nat \<times> pyfloat) option \<Rightarrow> inv_analysis_row" where
  "with_velocity l v =
     (case l of (p, i) \<Rightarrow>
        \<lparr> product_id = product_id p, product_name = product_name p,
          current_price = current_price p, min_price = min_price p, max_price = max_price p,
          ia_quantity_available = fillna (Finite 0) (cell inv_quantity_available i),
          ia_reorder_point = fillna (Finite 0) (cell inv_reorder_point i),
          avg_daily_sales = fillna (Finite 0) (case v of None \<Rightarrow> NaN | Some kv \<Rightarrow> snd kv) \<rparr>)"

definition inv_analysis ::
  "(double list \<Rightarrow> pyfloat) \<Rightarrow> product list \<Rightarrow> inventory_row list \<Rightarrow> demand_row list
     \<Rightarrow> inv_analysis_row list" where
  "inv_analysis agg ps invs demand =
     merge_left (\<lambda>l. product_id (fst l)) fst with_velocity
       (merge_left product_id inv_product_id Pair ps invs) (velocity agg demand)"

text \<open>The column \<^verbatim>\<open>days_of_stock\<close> of a row, for float columns.\<close>

definition days_of_stock :: "inv_analysis_row \<Rightarrow> pyfloat" where
  "days_of_stock row =
     column_round 1 (fillna (Finite 999) (replace_inf (Finite 999)
       (column_div (ia_quantity_available row) (avg_daily_sales row))))"

text \<open>
  A column that a merge takes from a table without rows is not a float column: under
  pandas 3 its cells are Python objects, and \<^verbatim>\<open>.fillna(0)\<close> leaves it a column of
  objects, each the number 0. A division with such a column is Python's division, cell
  by cell from the top, which raises on a zero divisor; and \<^verbatim>\<open>.round\<close> refuses its
  result, a column of objects.
\<close>

fun object_column_div :: "inv_analysis_row list \<Rightarrow> error + pyfloat list" where
  "object_column_div [] = Inr []"
| "object_column_div (row # rows) =
     (case float_div (ia_quantity_available row) (avg_daily_sales row) of
        Inl e \<Rightarrow> Inl e
      | Inr x \<Rightarrow> (case object_column_div rows of Inl e \<Rightarrow> Inl e | Inr xs \<Rightarrow> Inr (x # xs)))"

text \<open>
  The function prints two selections of the frame; the model returns them: the rows
  at or below the reorder point, and the rows with more than 30 days of stock.
\<close>

definition inventory_alerts ::
  "(double list \<Rightarrow> pyfloat) \<Rightarrow> data \<Rightarrow> error + inv_analysis_row list \<times> inv_analysis_row list" where
  "inventory_alerts agg d =
     (case lookup (products d) ''products'' of Inl e \<Rightarrow> Inl e | Inr ps \<Rightarrow>
     (case lookup (inventory d) ''inventory'' of Inl e \<Rightarrow> Inl e | Inr invs \<Rightarrow>
     (case lookup (demand_metrics d) ''demand_metrics'' of Inl e \<Rightarrow> Inl e | Inr demand \<Rightarrow>
      (let frame = inv_analysis agg ps invs demand
       in if invs = [] \<or> demand = [] then
            (case object_column_div frame of Inl e \<Rightarrow> Inl e | Inr quotients \<Rightarrow> Inl TypeError)
          else
            Inr (filter (\<lambda>r. float_le (ia_quantity_available r) (ia_reorder_point r)) frame,
                 filter (\<lambda>r. float_lt (Finite 30) (days_of_stock r)) frame)))))"

section \<open>Example tables and rows\<close>

text \<open>
  Three products. The first has high demand and adequate stock; the second has no
  inventory row, its only demand snapshot is eleven days older than the latest one, and
  two competitors undercut it; the third is low on stock with sustained demand.
\<close>

definition example_products :: "product list" where
  "example_products =
     [\<lparr> product_id = 1, product_name = ''Widget'', current_price = dbl 100,
        min_price = dbl 80, max_price = dbl 120 \<rparr>,
      \<lparr> product_id = 2, product_name = ''Gadget'', current_price = dbl 100,
        min_price = dbl 97, max_price = dbl 150 \<rparr>,
      \<lparr> product_id = 3, product_name = ''Gizmo'', current_price = dbl 100,
        min_price = dbl 50, max_price = dbl 200 \<rparr>]"

definition example_inventory :: "inventory_row list" where
  "example_inventory =
     [\<lparr> inv_product_id = 1, inv_quantity_available = dbl 60, inv_stock_status = ''in_stock'',
        inv_reorder_point = dbl 20 \<rparr>,
      \<lparr> inv_product_id = 3, inv_quantity_available = dbl 10, inv_stock_status = ''low_stock'',
        inv_reorder_point = dbl 20 \<rparr>]"

definition example_demand :: "demand_row list" where
  "example_demand =
     [\<lparr> dm_product_id = 1, dm_date = 1728086400000000000, dm_demand_score = dbl 8,
        dm_conversion_rate = dbl (3 / 100), dm_purchase_count = dbl 0 \<rparr>,
      \<lparr> dm_product_id = 2, dm_date = 1727136000000000000, dm_demand_score = dbl 9,
        dm_conversion_rate = dbl (2 / 100), dm_purchase_count = dbl 4 \<rparr>,
      \<lparr> dm_product_id = 3, dm_date = 1728086400000000000, dm_demand_score = dbl 7,
        dm_conversion_rate = dbl (5 / 100), dm_purchase_count = dbl 5 \<rparr>]"

definition example_competitor_prices :: "competitor_price_row list" where
  "example_competitor_prices =
     [\<lparr> cp_product_id = 2, cp_competitor_price = dbl 88 \<rparr>,
      \<lparr> cp_product_id = 2, cp_competitor_price = dbl 92 \<rparr>]"

definition example_data :: data where
  "example_data =
     \<lparr> products = Some example_products, inventory = Some example_inventory,
       demand_metrics = Some example_demand,
       competitor_prices = Some example_competitor_prices \<rparr>"

text \<open>The same tables with a demand file that has a header and no rows.\<close>

definition no_demand_data :: data where
  "no_demand_data =
     \<lparr> products = Some example_products, inventory = Some example_inventory,
       demand_metrics = Some [],
       competitor_prices = Some example_competitor_prices \<rparr>"

text \<open>The rows of \<^verbatim>\<open>reco\<close> for the three products.\<close>

definition widget_row :: reco_row where
  "widget_row =
     \<lparr> product_id = 1, product_name = ''Widget'', current_price = dbl 100,
       min_price = dbl 80, max_price = dbl 120,
       quantity_available = of_double (dbl 60), stock_status = Some ''in_stock'',
       demand_score = of_double (dbl 8), conversion_rate = of_double (dbl (3 / 100)),
       avg_competitor_price = NaN \<rparr>"

definition gadget_row :: reco_row where
  "gadget_row =
     \<lparr> product_id = 2, product_name = ''Gadget'', current_price = dbl 100,
       min_price = dbl 97, max_price = dbl 150,
       quantity_available = NaN, stock_status = None, demand_score = NaN,
       conversion_rate = NaN, avg_competitor_price = Finite 90 \<rparr>"

definition gizmo_row :: reco_row where
  "gizmo_row =
     \<lparr> product_id = 3, product_name = ''Gizmo'', current_price = dbl 100,
       min_price = dbl 50, max_price = dbl 200,
       quantity_available = of_double (dbl 10), stock_status = Some ''low_stock'',
       demand_score = of_double (dbl 7), conversion_rate = of_double (dbl (5 / 100)),
       avg_competitor_price = NaN \<rparr>"

text \<open>The recommendations the three rows give.\<close>

definition widget_rec :: recommendation where
  "widget_rec =
     \<lparr> rec_product_name = ''Widget'', rec_current_price = dbl 100,
       recommended_price = Finite 105, action = INCREASE, change_pct = Finite 5,
       reason = Some (High_demand_adequate_stock (of_double (dbl 8))) \<rparr>"

definition gadget_rec :: recommendation where
  "gadget_rec =
     \<lparr> rec_product_name = ''Gadget'', rec_current_price = dbl 100,
       recommended_price = Finite 97, action = DECREASE, change_pct = Finite (- 3),
       reason = Some (Price_above_competitors (Finite 90)) \<rparr>"

definition gizmo_rec :: recommendation where
  "gizmo_rec =
     \<lparr> rec_product_name = ''Gizmo'', rec_current_price = dbl 100,
       recommended_price = Finite 108, action = INCREASE, change_pct = Finite 8,
       reason = Some Low_stock_sustained_demand \<rparr>"

text \<open>
  Single rows. A row is written by its product cells and the cells the rules read:
  quantity, stock status, demand score and competitor average.
\<close>

definition make_row ::
  "rat \<Rightarrow> rat \<Rightarrow> rat \<Rightarrow> pyfloat \<Rightarrow> string option \<Rightarrow> pyfloat \<Rightarrow> pyfloat \<Rightarrow> reco_row" where
  "make_row cur lo hi quantity status demand average =
     \<lparr> product_id = 0, product_name = ''Sprocket'', current_price = dbl cur,
       min_price = dbl lo, max_price = dbl hi,
       quantity_available = quantity, stock_status = status, demand_score = demand,
       conversion_rate = NaN, avg_competitor_price = average \<rparr>"

text \<open>Low demand with excess stock; rules 1 and 3 at once; high demand without inventory.\<close>

definition clearance_row :: reco_row where
  "clearance_row = make_row 50 40 60 (Finite 150) (Some ''in_stock'') (Finite 4) NaN"


definition unstocked_row :: reco_row where
  "unstocked_row = make_row 100 80 120 NaN None (Finite 9) (Finite 90)"



text \<open>
  Rows with unusual prices: a maximum with three decimals, a negative price, a price of
  thirteen cents, and a price of zero under rule 1 and under rule 2.
\<close>

definition fine_bounds_row :: reco_row where
  "fine_bounds_row =
     make_row (195 / 10) 15 (19999 / 1000) (Finite 60) (Some ''in_stock'') (Finite 8) NaN"

definition negative_price_row :: reco_row where
  "negative_price_row = make_row (- 100) (- 120) (- 95) NaN None NaN (Finite (- 96))"

definition penny_row :: reco_row where
  "penny_row = make_row (13 / 100) 0 1 (Finite 60) (Some ''in_stock'') (Finite 8) NaN"





text \<open>
  A price of 19.90 under rules 1 and 3 at once, and a price of 8.00 that rule 1 caps at
  a maximum of 8.05.
\<close>

definition contested_odd_cents_row :: reco_row where
  "contested_odd_cents_row =
     make_row (199 / 10) 15 25 (Finite 60) (Some ''in_stock'') (Finite 8) (Finite 10)"

definition capped_row :: reco_row where
  "capped_row = make_row 8 5 (805 / 100) (Finite 60) (Some ''in_stock'') (Finite 8) NaN"

text \<open>
  A row without demand and inventory whose price of 3.99 is the exact product of its
  competitor average 3.80 and 1.05, and above the product in floats.
\<close>

definition tie_row :: reco_row where
  "tie_row = make_row (399 / 100) 1 5 NaN None NaN (fl (38 / 10))"

text \<open>A row without demand and inventory whose competitor average is 1.25.\<close>

definition quarter_row :: reco_row where
  "quarter_row = make_row 2 1 3 NaN None NaN (Finite (125 / 100))"

text \<open>The rows of \<^verbatim>\<open>inv_analysis\<close> for the three products.\<close>

definition widget_stock :: inv_analysis_row where
  "widget_stock =
     \<lparr> product_id = 1, product_name = ''Widget'', current_price = dbl 100,
       min_price = dbl 80, max_price = dbl 120,
       ia_quantity_available = Finite 60, ia_reorder_point = Finite 20,
       avg_daily_sales = Finite 0 \<rparr>"

definition gadget_stock :: inv_analysis_row where
  "gadget_stock =
     \<lparr> product_id = 2, product_name = ''Gadget'', current_price = dbl 100,
       min_price = dbl 97, max_price = dbl 150,
       ia_quantity_available = Finite 0, ia_reorder_point = Finite 0,
       avg_daily_sales = Finite 0 \<rparr>"

definition gizmo_stock :: inv_analysis_row where
  "gizmo_stock =
     \<lparr> product_id = 3, product_name = ''Gizmo'', current_price = dbl 100,
       min_price = dbl 50, max_price = dbl 200,
       ia_quantity_available = Finite 10, ia_reorder_point = Finite 20,
       avg_daily_sales = Finite 5 \<rparr>"

section \<open>Rounding to the nearest double is monotone\<close>

lemma floor_rat_numeral_div:
  "\<lfloor>numeral a / numeral b :: rat\<rfloor> = numeral a div numeral b"
  by (metis floor_divide_of_int_eq of_int_numeral)

lemma floor_rat_minus_numeral_div:
  "\<lfloor>- (numeral a / numeral b) :: rat\<rfloor> = - numeral a div numeral b"
  by (metis divide_minus_left floor_divide_of_int_eq of_int_neg_numeral of_int_numeral)

lemma ceiling_rat_numeral_div:
  "\<lceil>numeral a / numeral b :: rat\<rceil> = - (- numeral a div numeral b)"
  unfolding ceiling_def by (simp add: floor_rat_minus_numeral_div)

lemmas fl_eval = fl_def nearest_def round_pos_def ulp_exp_def ilog2_def bit_length.simps
  round_half_even_def Let_def floor_rat_numeral_div floor_rat_minus_numeral_div
  ceiling_rat_numeral_div


lemma bit_length_pos: "0 < n \<Longrightarrow> 0 < bit_length n"
  by (subst bit_length.simps) simp

lemma bit_length_bounds:
  assumes "0 < n"
  shows "2 ^ (bit_length n - 1) \<le> n \<and> n < 2 ^ bit_length n"
  using assms
proof (induction n rule: bit_length.induct)
  case (1 n)
  have unfold: "bit_length n = Suc (bit_length (n div 2))"
    using "1.prems" by (subst bit_length.simps) simp
  show ?case
  proof (cases "n div 2 = 0")
    case True
    with "1.prems" have "n = 1"
      by (cases n) auto
    then show ?thesis
      by (simp add: bit_length.simps)
  next
    case False
    with "1.IH" "1.prems" have ih:
      "2 ^ (bit_length (n div 2) - 1) \<le> n div 2" "n div 2 < 2 ^ bit_length (n div 2)"
      by simp_all
    from False have "0 < bit_length (n div 2)"
      by (simp add: bit_length_pos)
    then obtain k where k: "bit_length (n div 2) = Suc k"
      by (cases "bit_length (n div 2)") simp_all
    from ih(1) have "2 * 2 ^ k \<le> 2 * (n div 2)"
      by (simp add: k)
    also have "\<dots> \<le> n"
      by simp
    finally have lower: "2 ^ (bit_length n - 1) \<le> n"
      by (simp add: unfold k)
    from ih(2) have "n div 2 + 1 \<le> 2 ^ bit_length (n div 2)"
      by simp
    then have "2 * (n div 2) + 2 \<le> 2 * 2 ^ bit_length (n div 2)"
      by simp
    moreover have "n < 2 * (n div 2) + 2"
      by presburger
    ultimately have upper: "n < 2 ^ bit_length n"
      by (simp add: unfold)
    from lower upper show ?thesis ..
  qed
qed

lemma ilog2_bounds:
  assumes "0 < x"
  shows "2 powi ilog2 x \<le> x \<and> x < 2 powi (ilog2 x + 1)"
proof (cases "1 \<le> x")
  case True
  define n where "n = nat \<lfloor>x\<rfloor>"
  from True have n_pos: "0 < n"
    by (simp add: n_def)
  from True have n_floor: "of_nat n = (of_int \<lfloor>x\<rfloor> :: rat)"
    by (simp add: n_def)
  obtain k where k: "bit_length n = Suc k"
    using bit_length_pos [OF n_pos] by (cases "bit_length n") simp_all
  have e: "ilog2 x = int k"
    using True by (simp add: ilog2_def n_def [symmetric] k)
  from bit_length_bounds [OF n_pos] have b: "2 ^ k \<le> n" "n < 2 ^ Suc k"
    by (simp_all add: k)
  have "(2 :: rat) ^ k = of_nat (2 ^ k)"
    by simp
  also have "\<dots> \<le> of_nat n"
    using b(1) by (simp only: of_nat_le_iff)
  also have "\<dots> \<le> x"
    by (simp add: n_floor)
  finally have lower: "2 powi ilog2 x \<le> x"
    by (simp add: e)
  have "x < of_int \<lfloor>x\<rfloor> + 1"
    by linarith
  also have "\<dots> = of_nat (n + 1)"
    by (simp add: n_floor)
  also have "\<dots> \<le> of_nat (2 ^ Suc k)"
    using b(2) by (simp only: of_nat_le_iff)
  also have "\<dots> = 2 powi (ilog2 x + 1)"
    by (simp add: e power_int_add)
  finally have upper: "x < 2 powi (ilog2 x + 1)" .
  from lower upper show ?thesis ..
next
  case False
  define y where "y = 1 / x"
  from False assms have y: "1 < y" "0 < y"
    by (simp_all add: y_def)
  define m where "m = nat (\<lceil>y\<rceil> - 1)"
  from y have c2: "2 \<le> \<lceil>y\<rceil>"
    by linarith
  then have m_pos: "0 < m"
    by (simp add: m_def)
  from c2 have m_ceil: "(of_nat m :: rat) = of_int \<lceil>y\<rceil> - 1"
    by (simp add: m_def)
  obtain k where k: "bit_length m = Suc k"
    using bit_length_pos [OF m_pos] by (cases "bit_length m") simp_all
  have e: "ilog2 x = - int (Suc k)"
    using False by (simp add: ilog2_def y_def [symmetric] m_def [symmetric] k)
  from bit_length_bounds [OF m_pos] have b: "2 ^ k \<le> m" "m < 2 ^ Suc k"
    by (simp_all add: k)
  have "y \<le> of_int \<lceil>y\<rceil>"
    by linarith
  also have "\<dots> = of_nat (m + 1)"
    by (simp add: m_ceil)
  also have "\<dots> \<le> of_nat (2 ^ Suc k)"
    using b(2) by (simp only: of_nat_le_iff)
  finally have "y \<le> 2 ^ Suc k"
    by simp
  then have "1 / 2 ^ Suc k \<le> x"
    using assms by (simp add: y_def field_simps)
  moreover have "(2 :: rat) powi (- int (Suc k)) = 1 / 2 ^ Suc k"
    by (simp only: power_int_minus_divide power_int_of_nat)
  ultimately have lower: "2 powi ilog2 x \<le> x"
    by (simp only: e)
  have "(2 :: rat) ^ k = of_nat (2 ^ k)"
    by simp
  also have "\<dots> \<le> of_nat m"
    using b(1) by (simp only: of_nat_le_iff)
  also have "\<dots> < y"
    unfolding m_ceil by linarith
  finally have "x < 1 / 2 ^ k"
    using assms by (simp add: y_def field_simps)
  moreover have "ilog2 x + 1 = - int k"
    by (simp add: e)
  moreover have "(2 :: rat) powi (- int k) = 1 / 2 ^ k"
    by (simp only: power_int_minus_divide power_int_of_nat)
  ultimately have upper: "x < 2 powi (ilog2 x + 1)"
    by simp
  from lower upper show ?thesis ..
qed

lemma ilog2_mono:
  assumes "0 < x" "x \<le> y"
  shows "ilog2 x \<le> ilog2 y"
proof (rule ccontr)
  assume "\<not> ilog2 x \<le> ilog2 y"
  then have "ilog2 y + 1 \<le> ilog2 x"
    by simp
  then have "(2 :: rat) powi (ilog2 y + 1) \<le> 2 powi ilog2 x"
    by (intro power_int_increasing) simp_all
  also have "\<dots> \<le> x"
    using ilog2_bounds [OF assms(1)] by simp
  also have "\<dots> \<le> y"
    by (rule assms(2))
  also have "\<dots> < 2 powi (ilog2 y + 1)"
    using ilog2_bounds [of y] assms by simp
  finally show False
    by simp
qed


lemma round_half_even_of_int: "round_half_even (of_int n) = n"
  by (simp add: round_half_even_def)

lemma round_half_even_bounds:
  "\<lfloor>x\<rfloor> \<le> round_half_even x" "round_half_even x \<le> \<lfloor>x\<rfloor> + 1"
  by (simp_all add: round_half_even_def Let_def)

lemma round_half_even_mono:
  assumes "x \<le> y"
  shows "round_half_even x \<le> round_half_even y"
proof (cases "\<lfloor>x\<rfloor> = \<lfloor>y\<rfloor>")
  case True
  with assms show ?thesis
    by (auto simp add: round_half_even_def Let_def)
next
  case False
  with assms have "\<lfloor>x\<rfloor> + 1 \<le> \<lfloor>y\<rfloor>"
    using floor_mono [of x y] by linarith
  with round_half_even_bounds [of x] round_half_even_bounds [of y] show ?thesis
    by linarith
qed


text \<open>Rounding to a multiple of a power of two does not cross a larger power of two.\<close>

lemma pow2_quotient:
  assumes "q \<le> b"
  shows "(2 :: rat) powi b / 2 powi q = of_int (2 ^ nat (b - q))"
proof -
  have "(2 :: rat) powi b / 2 powi q = 2 powi (b - q)"
    by (simp add: power_int_diff)
  also have "\<dots> = 2 ^ nat (b - q)"
    using assms by (simp add: power_int_nonneg_exp)
  finally show ?thesis
    by simp
qed

lemma round_multiple_le:
  assumes "x \<le> 2 powi b" "q \<le> b"
  shows "of_int (round_half_even (x / 2 powi q)) * 2 powi q \<le> (2 :: rat) powi b"
proof -
  have pos: "(0 :: rat) < 2 powi q"
    by simp
  from assms(1) have "x / 2 powi q \<le> 2 powi b / 2 powi q"
    using pos by (simp add: divide_right_mono)
  then have "round_half_even (x / 2 powi q) \<le> round_half_even (2 powi b / 2 powi q)"
    by (rule round_half_even_mono)
  also have "\<dots> = 2 ^ nat (b - q)"
    unfolding pow2_quotient [OF assms(2)] by (rule round_half_even_of_int)
  finally have "(of_int (round_half_even (x / 2 powi q)) :: rat) \<le> of_int (2 ^ nat (b - q))"
    by (simp only: of_int_le_iff)
  then have "of_int (round_half_even (x / 2 powi q)) * 2 powi q
      \<le> (of_int (2 ^ nat (b - q)) :: rat) * 2 powi q"
    using pos by (simp add: mult_right_mono)
  also have "\<dots> = 2 powi b"
    unfolding pow2_quotient [OF assms(2), symmetric] by simp
  finally show ?thesis .
qed

lemma round_multiple_ge:
  assumes "2 powi b \<le> x" "q \<le> b"
  shows "(2 :: rat) powi b \<le> of_int (round_half_even (x / 2 powi q)) * 2 powi q"
proof -
  have pos: "(0 :: rat) < 2 powi q"
    by simp
  from assms(1) have "2 powi b / 2 powi q \<le> x / 2 powi q"
    using pos by (simp add: divide_right_mono)
  then have "round_half_even (2 powi b / 2 powi q) \<le> round_half_even (x / 2 powi q)"
    by (rule round_half_even_mono)
  moreover have "round_half_even ((2 :: rat) powi b / 2 powi q) = 2 ^ nat (b - q)"
    unfolding pow2_quotient [OF assms(2)] by (rule round_half_even_of_int)
  ultimately have "(of_int (2 ^ nat (b - q)) :: rat) \<le> of_int (round_half_even (x / 2 powi q))"
    by (simp only: of_int_le_iff)
  then have "(of_int (2 ^ nat (b - q)) :: rat) * 2 powi q
      \<le> of_int (round_half_even (x / 2 powi q)) * 2 powi q"
    using pos by (intro mult_right_mono) simp_all
  moreover have "(of_int (2 ^ nat (b - q)) :: rat) * 2 powi q = 2 powi b"
    unfolding pow2_quotient [OF assms(2), symmetric] by simp
  ultimately show ?thesis
    by (simp only:)
qed

lemma ulp_exp_le_ilog2: "ulp_exp x \<le> ilog2 x \<or> ulp_exp x = - 1074"
  by (simp add: ulp_exp_def max_def)

lemma round_pos_mono:
  assumes "0 < x" "x \<le> y"
  shows "round_pos x \<le> round_pos y"
proof (cases "ulp_exp x = ulp_exp y")
  case True
  have pos: "(0 :: rat) < 2 powi ulp_exp y"
    by simp
  from assms(2) have "x / 2 powi ulp_exp y \<le> y / 2 powi ulp_exp y"
    using pos by (simp add: divide_right_mono)
  then have "(of_int (round_half_even (x / 2 powi ulp_exp y)) :: rat)
      \<le> of_int (round_half_even (y / 2 powi ulp_exp y))"
    by (simp only: of_int_le_iff round_half_even_mono)
  then show ?thesis
    unfolding round_pos_def True using pos by (simp add: mult_right_mono)
next
  case False
  from assms have le: "ilog2 x \<le> ilog2 y"
    by (rule ilog2_mono)
  with False have lt: "ilog2 x < ilog2 y" and qy: "ulp_exp y = ilog2 y - 52"
    and qx: "ulp_exp x \<le> ilog2 y"
    by (auto simp add: ulp_exp_def max_def split: if_splits)
  from assms have ypos: "0 < y"
    by simp
  have "x < 2 powi (ilog2 x + 1)"
    using ilog2_bounds [OF assms(1)] by simp
  also have "\<dots> \<le> 2 powi ilog2 y"
    using lt by (intro power_int_increasing) simp_all
  finally have "x \<le> 2 powi ilog2 y"
    by simp
  then have "round_pos x \<le> 2 powi ilog2 y"
    unfolding round_pos_def using qx by (rule round_multiple_le)
  also have "2 powi ilog2 y \<le> y"
    using ilog2_bounds [OF ypos] by simp
  then have "2 powi ilog2 y \<le> round_pos y"
    unfolding round_pos_def by (rule round_multiple_ge) (simp add: qy)
  finally show ?thesis .
qed

lemma round_pos_nonneg: "0 < x \<Longrightarrow> 0 \<le> round_pos x"
proof -
  assume "0 < x"
  then have "0 \<le> x / 2 powi ulp_exp x"
    by simp
  then have "round_half_even 0 \<le> round_half_even (x / 2 powi ulp_exp x)"
    by (rule round_half_even_mono)
  then have "0 \<le> round_half_even (x / 2 powi ulp_exp x)"
    by (simp add: round_half_even_def)
  then show ?thesis
    by (simp add: round_pos_def)
qed

lemma nearest_mono:
  assumes "x \<le> y"
  shows "nearest x \<le> nearest y"
proof -
  consider "0 < x" | "x \<le> 0" "0 \<le> y" | "y < 0"
    using assms by linarith
  then show ?thesis
  proof cases
    case 1
    with assms show ?thesis
      by (simp add: nearest_def round_pos_mono)
  next
    case 2
    have "nearest x \<le> 0"
      using 2(1) round_pos_nonneg [of "- x"] by (auto simp add: nearest_def)
    moreover have "0 \<le> nearest y"
      using 2(2) round_pos_nonneg [of y] by (auto simp add: nearest_def)
    ultimately show ?thesis
      by simp
  next
    case 3
    with assms have "round_pos (- y) \<le> round_pos (- x)"
      by (intro round_pos_mono) simp_all
    with 3 assms show ?thesis
      by (simp add: nearest_def)
  qed
qed

lemma nearest_zero: "nearest 0 = 0"
  by (simp add: nearest_def)


lemma nearest_nonneg: "0 \<le> x \<Longrightarrow> 0 \<le> nearest x"
  using nearest_mono [of 0 x] by (simp add: nearest_zero)

lemma nearest_nonpos: "x \<le> 0 \<Longrightarrow> nearest x \<le> 0"
  using nearest_mono [of x 0] by (simp add: nearest_zero)

lemma fl_cases:
  obtains (pos) "2 ^ 1024 \<le> nearest x" "fl x = PosInf"
  | (neg) "nearest x \<le> - (2 ^ 1024)" "fl x = NegInf"
  | (fin) "- (2 ^ 1024) < nearest x" "nearest x < 2 ^ 1024" "fl x = Finite (nearest x)"
proof (cases "(2 :: rat) ^ 1024 \<le> nearest x")
  case True
  then show ?thesis
    using pos by (simp add: fl_def)
next
  case a: False
  show ?thesis
  proof (cases "nearest x \<le> - (2 ^ 1024)")
    case True
    have "- ((2 :: rat) ^ 1024) < 2 ^ 1024"
      by (rule less_trans [of _ 0]) simp_all
    with True have "\<not> 2 ^ 1024 \<le> nearest x"
      by linarith
    with True show ?thesis
      using neg by (simp add: fl_def)
  next
    case False
    with a show ?thesis
      using fin by (simp add: fl_def)
  qed
qed

lemma fl_not_NaN [simp]: "fl x \<noteq> NaN"
  by (cases x rule: fl_cases) simp_all

lemma fl_mono:
  assumes "x \<le> y"
  shows "float_le (fl x) (fl y)"
proof -
  have big: "- ((2 :: rat) ^ 1024) < 2 ^ 1024"
    by (rule less_trans [of _ 0]) simp_all
  from assms have "nearest x \<le> nearest y"
    by (rule nearest_mono)
  with big show ?thesis
    by (cases x rule: fl_cases; cases y rule: fl_cases) simp_all
qed

section \<open>Doubles\<close>

lemma fl_val [simp]: "fl (val d) = Finite (val d)"
  using Rep_double [of d] by (simp add: val.rep_eq is_double_def)

lemma nearest_val [simp]: "nearest (val d) = val d"
  using fl_val [of d] by (cases "val d" rule: fl_cases) simp_all

lemma val_bounded: "- (2 ^ 1024) < val d" "val d < 2 ^ 1024"
  using fl_val [of d] by (cases "val d" rule: fl_cases; simp)+

lemma val_dbl:
  assumes "fl x = Finite y" "fl y = Finite y"
  shows "val (dbl x) = y"
  using assms by (simp add: val.rep_eq dbl.rep_eq is_double_def)

lemma val_dbl_exact:
  assumes "fl x = Finite x"
  shows "val (dbl x) = x"
  by (rule val_dbl [OF assms assms])

text \<open>A float at or above a double stays there when it is rounded; likewise below.\<close>

lemma fl_ge_double:
  assumes "val d \<le> x"
  shows "fl x = PosInf \<or> (\<exists>y. fl x = Finite y \<and> val d \<le> y)"
proof -
  from assms have "nearest (val d) \<le> nearest x"
    by (rule nearest_mono)
  then have "val d \<le> nearest x"
    by simp
  with val_bounded(1) [of d] show ?thesis
    by (cases x rule: fl_cases) auto
qed

lemma fl_le_double:
  assumes "x \<le> val d"
  shows "fl x = NegInf \<or> (\<exists>y. fl x = Finite y \<and> y \<le> val d)"
proof -
  from assms have "nearest x \<le> nearest (val d)"
    by (rule nearest_mono)
  then have "nearest x \<le> val d"
    by simp
  with val_bounded(2) [of d] show ?thesis
    by (cases x rule: fl_cases) auto
qed

section \<open>Signs and missing values under the float operations\<close>

lemma fl_zero [simp]: "fl 0 = Finite 0"
  by (simp add: fl_def nearest_def)

lemma fl_nonneg: "0 \<le> x \<Longrightarrow> float_le (Finite 0) (fl x)"
  using fl_mono [of 0 x] by simp

lemma fl_nonpos: "x \<le> 0 \<Longrightarrow> float_le (fl x) (Finite 0)"
  using fl_mono [of x 0] by simp

lemma float_le_Finite_cases:
  "float_le (Finite a) x \<longleftrightarrow> x = PosInf \<or> (\<exists>b. x = Finite b \<and> a \<le> b)"
  "float_le x (Finite a) \<longleftrightarrow> x = NegInf \<or> (\<exists>b. x = Finite b \<and> b \<le> a)"
  by (cases x; simp)+

lemma float_le_trans: "float_le x y \<Longrightarrow> float_le y z \<Longrightarrow> float_le x z"
  by (cases x; cases y; cases z) simp_all

lemma float_mul_nonneg:
  assumes "float_le (Finite 0) x" "0 < b"
  shows "float_le (Finite 0) (float_mul x (Finite b))"
  using assms by (cases x) (simp_all add: fl_nonneg signed_inf_def sign_of_def)

lemma float_mul_nonpos:
  assumes "float_le x (Finite 0)" "0 < b"
  shows "float_le (float_mul x (Finite b)) (Finite 0)"
  using assms by (cases x) (simp_all add: fl_nonpos signed_inf_def sign_of_def mult_le_0_iff)

lemma ieee_div_nonneg:
  assumes "float_le (Finite 0) x" "0 < b"
  shows "float_le (Finite 0) (ieee_div x (Finite b))"
  using assms by (cases x) (simp_all add: fl_nonneg signed_inf_def sign_of_def)

lemma ieee_div_nonpos:
  assumes "float_le x (Finite 0)" "0 < b"
  shows "float_le (ieee_div x (Finite b)) (Finite 0)"
  using assms
  by (cases x) (simp_all add: fl_nonpos signed_inf_def sign_of_def divide_le_0_iff)

lemma round_half_even_zero [simp]: "round_half_even 0 = 0"
  by (simp add: round_half_even_def)

lemma py_round_mono:
  assumes "float_le x y"
  shows "float_le (py_round x n) (py_round y n)"
proof (cases x; cases y)
  fix a b
  assume xy: "x = Finite a" "y = Finite b"
  with assms have "a * 10 ^ n \<le> b * 10 ^ n"
    by simp
  then have "round_half_even (a * 10 ^ n) \<le> round_half_even (b * 10 ^ n)"
    by (rule round_half_even_mono)
  then have "(of_int (round_half_even (a * 10 ^ n)) :: rat) / 10 ^ n
      \<le> of_int (round_half_even (b * 10 ^ n)) / 10 ^ n"
    by (simp add: divide_right_mono)
  then show ?thesis
    unfolding xy py_round_def by (simp add: fl_mono)
next
  fix a
  assume "x = Finite a" "y = PosInf"
  then show ?thesis
    by (cases "of_int (round_half_even (a * 10 ^ n)) / 10 ^ n :: rat" rule: fl_cases)
      (simp_all add: py_round_def)
next
  fix b
  assume "x = NegInf" "y = Finite b"
  then show ?thesis
    by (cases "of_int (round_half_even (b * 10 ^ n)) / 10 ^ n :: rat" rule: fl_cases)
      (simp_all add: py_round_def)
qed (use assms in \<open>simp_all add: py_round_def\<close>)

lemma py_round_zero [simp]: "py_round (Finite 0) n = Finite 0"
  by (simp add: py_round_def)

lemma py_round_nonneg: "float_le (Finite 0) x \<Longrightarrow> float_le (Finite 0) (py_round x n)"
  using py_round_mono [of "Finite 0" x n] by simp

lemma py_round_nonpos: "float_le x (Finite 0) \<Longrightarrow> float_le (py_round x n) (Finite 0)"
  using py_round_mono [of x "Finite 0" n] by simp


lemma py_round_not_NaN: "x \<noteq> NaN \<Longrightarrow> py_round x n \<noteq> NaN"
  by (cases x) (simp_all add: py_round_def)

lemma float_mul_Finite_not_NaN:
  assumes "x \<noteq> NaN" "b \<noteq> 0"
  shows "float_mul x (Finite b) \<noteq> NaN"
  using assms by (cases x) (simp_all add: signed_inf_def sign_of_def sgn_if)

lemma float_sub_Finite_not_NaN:
  assumes "x \<noteq> NaN"
  shows "float_sub x (Finite b) \<noteq> NaN"
  using assms by (cases x) (simp_all add: float_sub_def)

lemma ieee_div_Finite_not_NaN:
  assumes "x \<noteq> NaN" "b \<noteq> 0"
  shows "ieee_div x (Finite b) \<noteq> NaN"
  using assms by (cases x) (simp_all add: signed_inf_def sign_of_def sgn_if)

lemma py_min_not_NaN: "a \<noteq> NaN \<Longrightarrow> b \<noteq> NaN \<Longrightarrow> py_min a b \<noteq> NaN"
  by (simp add: py_min_def)

lemma py_max_not_NaN: "a \<noteq> NaN \<Longrightarrow> b \<noteq> NaN \<Longrightarrow> py_max a b \<noteq> NaN"
  by (simp add: py_max_def)

section \<open>The four literals\<close>

lemma literal_105: "literal_1_05 = Finite (4728779608739021 / 4503599627370496)"
  by (simp add: literal_1_05_def fl_eval)

lemma literal_92: "literal_0_92 = Finite (8286623314361713 / 9007199254740992)"
  by (simp add: literal_0_92_def fl_eval)

lemma literal_98: "literal_0_98 = Finite (2206763817411543 / 2251799813685248)"
  by (simp add: literal_0_98_def fl_eval)

lemma literal_108: "literal_1_08 = Finite (607985949695017 / 562949953421312)"
  by (simp add: literal_1_08_def fl_eval)

lemmas literals = literal_105 literal_92 literal_98 literal_108

section \<open>Prices under the clamps\<close>

lemma increase_price:
  assumes "0 < val cur" "val cur \<le> val hi" "1 \<le> c"
  shows "\<exists>p. py_min (float_mul (of_double cur) (Finite c)) (of_double hi) = Finite p
           \<and> val cur \<le> p \<and> p \<le> val hi"
proof -
  from assms(1,3) have "val cur \<le> val cur * c"
    by simp
  from fl_ge_double [OF this] assms(2) show ?thesis
    by (auto simp add: of_double_def py_min_def)
qed

lemma decrease_price:
  assumes "0 < val cur" "val lo \<le> val cur" "0 \<le> c" "c \<le> 1"
  shows "\<exists>p. py_max (float_mul (of_double cur) (Finite c)) (of_double lo) = Finite p
           \<and> val lo \<le> p \<and> p \<le> val cur"
proof -
  from assms(1,4) have "val cur * c \<le> val cur"
    by (simp add: mult_left_le)
  from fl_le_double [OF this] assms(2) show ?thesis
    by (auto simp add: of_double_def py_max_def)
qed

lemma competitor_price:
  assumes "0 < val cur" "val lo \<le> val cur" "0 < c'" "c' \<le> c"
    and "float_lt (float_mul avg (Finite c)) (of_double cur)"
  shows "\<exists>p. py_max (float_mul avg (Finite c')) (of_double lo) = Finite p
           \<and> val lo \<le> p \<and> p \<le> val cur"
proof (cases avg)
  case (Finite a)
  have below: "float_mul avg (Finite c') = NegInf
      \<or> (\<exists>y. float_mul avg (Finite c') = Finite y \<and> y \<le> val cur)"
  proof (cases "0 \<le> a")
    case True
    with assms(4) have "a * c' \<le> a * c"
      by (simp add: mult_left_mono)
    then have "float_le (fl (a * c')) (fl (a * c))"
      by (rule fl_mono)
    with assms(5) show ?thesis
      unfolding Finite of_double_def
      by (cases "fl (a * c')"; cases "fl (a * c)") auto
  next
    case False
    with assms(3) have "a * c' \<le> 0"
      by (simp add: mult_le_0_iff)
    from fl_nonpos [OF this] assms(1) show ?thesis
      unfolding Finite by (auto simp add: float_le_Finite_cases)
  qed
  with assms(2) show ?thesis
    by (auto simp add: of_double_def py_max_def)
next
  case PosInf
  with assms(3,4,5) show ?thesis
    by (simp add: signed_inf_def sign_of_def of_double_def)
next
  case NegInf
  with assms(2,3) show ?thesis
    by (simp add: signed_inf_def sign_of_def of_double_def py_max_def)
next
  case NaN
  with assms(5) show ?thesis
    by simp
qed

section \<open>The rule chain and the loop body\<close>

lemma of_double_zero: "of_double d = Finite 0 \<longleftrightarrow> val d = 0"
  by (simp add: of_double_def)

lemma loop_body_fired:
  assumes "apply_rules row = (Some act, rsn, price)"
  shows "loop_body row recs =
           (case build_recommendation row act rsn price of
              Inl e \<Rightarrow> Inl e
            | Inr r \<Rightarrow> Inr (recs @ [r]))"
  using assms by (simp add: loop_body_def)

lemma loop_body_silent:
  assumes "apply_rules row = (None, rsn, price)"
  shows "loop_body row recs = Inr recs"
  using assms by (simp add: loop_body_def)

lemma build_recommendation_zero:
  assumes "val (current_price row) = 0"
  shows "build_recommendation row act rsn price = Inl ZeroDivisionError"
  using assms by (simp add: build_recommendation_def float_div_def of_double_def)

lemma build_recommendation_nonzero:
  assumes "val (current_price row) \<noteq> 0"
  shows "build_recommendation row act rsn price =
    Inr \<lparr> rec_product_name = product_name row,
          rec_current_price = current_price row,
          recommended_price = py_round price 2,
          action = act,
          change_pct =
            py_round (float_mul (ieee_div (float_sub price (of_double (current_price row)))
                                  (of_double (current_price row))) (Finite 100)) 2,
          reason = rsn \<rparr>"
  using assms by (simp add: build_recommendation_def float_div_def of_double_def)

lemma build_recommendation_fields:
  assumes "build_recommendation row act rsn price = Inr r"
  shows "val (current_price row) \<noteq> 0" "action r = act" "reason r = rsn"
    "recommended_price r = py_round price 2"
    "change_pct r =
       py_round (float_mul (ieee_div (float_sub price (of_double (current_price row)))
                             (of_double (current_price row))) (Finite 100)) 2"
    "rec_product_name r = product_name row" "rec_current_price r = current_price row"
proof -
  show nz: "val (current_price row) \<noteq> 0"
    using assms build_recommendation_zero [of row act rsn price] by auto
  from assms show "action r = act" "reason r = rsn"
    "recommended_price r = py_round price 2"
    "change_pct r =
       py_round (float_mul (ieee_div (float_sub price (of_double (current_price row)))
                             (of_double (current_price row))) (Finite 100)) 2"
    "rec_product_name r = product_name row" "rec_current_price r = current_price row"
    unfolding build_recommendation_nonzero [OF nz] by auto
qed

lemma loop_body_emits:
  assumes "loop_body row recs = Inr (recs @ [r])"
  obtains act rsn price where "apply_rules row = (Some act, rsn, price)"
    "build_recommendation row act rsn price = Inr r"
  using assms
  by (auto simp add: loop_body_def split: prod.splits option.splits sum.splits)

lemma loop_body_result:
  assumes "loop_body row recs = Inr recs'"
  shows "recs' = recs \<or> (\<exists>r. recs' = recs @ [r])"
  using assms
  by (auto simp add: loop_body_def split: prod.splits option.splits sum.splits)

text \<open>What the chain leaves behind: the values of the first rule that matches, or nothing.\<close>

lemma apply_rules_cases:
  obtains
    (rule1) "rule1_test row"
      "apply_rules row = (Some INCREASE, Some (High_demand_adequate_stock (demand_score row)),
         py_min (float_mul (of_double (current_price row)) literal_1_05)
           (of_double (max_price row)))"
  | (rule2) "\<not> rule1_test row" "rule2_test row"
      "apply_rules row = (Some DECREASE, Some (Low_demand_excess_inventory (demand_score row)),
         py_max (float_mul (of_double (current_price row)) literal_0_92)
           (of_double (min_price row)))"
  | (rule3) "\<not> rule1_test row" "\<not> rule2_test row" "rule3_test row"
      "apply_rules row = (Some DECREASE, Some (Price_above_competitors (avg_competitor_price row)),
         py_max (float_mul (avg_competitor_price row) literal_0_98)
           (of_double (min_price row)))"
  | (rule4) "\<not> rule1_test row" "\<not> rule2_test row" "\<not> rule3_test row" "rule4_test row"
      "apply_rules row = (Some INCREASE, Some Low_stock_sustained_demand,
         py_min (float_mul (of_double (current_price row)) literal_1_08)
           (of_double (max_price row)))"
  | (none) "\<not> rule1_test row" "\<not> rule2_test row" "\<not> rule3_test row" "\<not> rule4_test row"
      "apply_rules row = (None, None, of_double (current_price row))"
  by (cases "rule1_test row"; cases "rule2_test row"; cases "rule3_test row";
      cases "rule4_test row") (simp_all add: apply_rules_def)

text \<open>For a positive price within its bounds, the computed price stays within them.\<close>

lemma apply_rules_price:
  assumes "val (min_price row) \<le> val (current_price row)"
    and "val (current_price row) \<le> val (max_price row)"
    and "0 < val (current_price row)"
    and "apply_rules row = (Some act, rsn, price)"
  shows "\<exists>p. price = Finite p \<and> val (min_price row) \<le> p \<and> p \<le> val (max_price row) \<and>
           (act = INCREASE \<longrightarrow> val (current_price row) \<le> p) \<and>
           (act = DECREASE \<longrightarrow> p \<le> val (current_price row))"
proof (cases row rule: apply_rules_cases)
  case rule1
  from increase_price [OF assms(3,2), of "4728779608739021 / 4503599627370496"]
    rule1(2) assms(1,4) show ?thesis
    by (auto simp add: literal_105)
next
  case rule2
  from decrease_price [OF assms(3,1), of "8286623314361713 / 9007199254740992"]
    rule2(3) assms(2,4) show ?thesis
    by (auto simp add: literal_92)
next
  case rule3
  from rule3(3) have
    "float_lt (float_mul (avg_competitor_price row) (Finite (4728779608739021 / 4503599627370496)))
       (of_double (current_price row))"
    by (simp add: rule3_test_def literal_105)
  from competitor_price [OF assms(3,1) _ _ this, of "2206763817411543 / 2251799813685248"]
    rule3(4) assms(2,4) show ?thesis
    by (auto simp add: literal_98)
next
  case rule4
  from increase_price [OF assms(3,2), of "607985949695017 / 562949953421312"]
    rule4(5) assms(1,4) show ?thesis
    by (auto simp add: literal_108)
next
  case none
  with assms(4) show ?thesis
    by simp
qed

text \<open>The computed price is never NaN.\<close>

lemma apply_rules_not_NaN:
  assumes "apply_rules row = (act, rsn, price)"
  shows "price \<noteq> NaN"
proof -
  have a: "float_mul (of_double d) literal_1_05 \<noteq> NaN"
    "float_mul (of_double d) literal_0_92 \<noteq> NaN"
    "float_mul (of_double d) literal_1_08 \<noteq> NaN" for d
    by (simp_all add: literals of_double_def)
  have b: "of_double d \<noteq> NaN" for d
    by (simp add: of_double_def)
  have c: "float_mul (avg_competitor_price row) literal_0_98 \<noteq> NaN" if "rule3_test row"
    using that unfolding literal_98 rule3_test_def
    by (intro float_mul_Finite_not_NaN) simp_all
  from assms show ?thesis
    by (cases row rule: apply_rules_cases)
      (auto simp add: a b c py_min_not_NaN py_max_not_NaN)
qed

lemma change_pct_not_NaN:
  assumes "loop_body row recs = Inr (recs @ [r])"
  shows "change_pct r \<noteq> NaN"
proof -
  from assms obtain act rsn price where
    fired: "apply_rules row = (Some act, rsn, price)" and
    built: "build_recommendation row act rsn price = Inr r"
    by (rule loop_body_emits)
  from fired have "price \<noteq> NaN"
    by (rule apply_rules_not_NaN)
  moreover have nz: "val (current_price row) \<noteq> 0"
    using built by (rule build_recommendation_fields)
  ultimately have
    "float_mul (ieee_div (float_sub price (of_double (current_price row)))
       (of_double (current_price row))) (Finite 100) \<noteq> NaN"
    unfolding of_double_def
    by (intro float_mul_Finite_not_NaN ieee_div_Finite_not_NaN float_sub_Finite_not_NaN) simp_all
  then show ?thesis
    unfolding build_recommendation_fields(5) [OF built] by (rule py_round_not_NaN)
qed

section \<open>The loop\<close>

lemma loop_result:
  assumes "loop rows acc = Inr recs"
  shows "\<exists>new. recs = acc @ new \<and> length new \<le> length rows \<and>
           (\<forall>r \<in> set new. change_pct r \<noteq> NaN)"
  using assms
proof (induction rows arbitrary: acc)
  case Nil
  then show ?case by simp
next
  case (Cons row rows)
  from Cons.prems obtain mid where
    body: "loop_body row acc = Inr mid" and rest: "loop rows mid = Inr recs"
    by (auto split: sum.splits)
  from Cons.IH [OF rest] obtain new where new: "recs = mid @ new" "length new \<le> length rows"
    "\<forall>r \<in> set new. change_pct r \<noteq> NaN"
    by blast
  from loop_body_result [OF body] show ?case
  proof
    assume "mid = acc"
    with new show ?thesis by auto
  next
    assume "\<exists>r. mid = acc @ [r]"
    then obtain r where r: "mid = acc @ [r]" ..
    with body have "change_pct r \<noteq> NaN"
      by (simp add: change_pct_not_NaN)
    with new r show ?thesis
      by (intro exI [of _ "r # new"]) auto
  qed
qed

section \<open>Merges\<close>

lemma merge_left_if:
  "merge_left lkey rkey combine left right =
     concat (map (\<lambda>l. if filter (\<lambda>r. rkey r = lkey l) right = [] then [combine l None]
                        else map (\<lambda>r. combine l (Some r)) (filter (\<lambda>r. rkey r = lkey l) right)) left)"
  unfolding merge_left_def
  by (rule arg_cong [where f = concat], rule map_cong [OF refl]) (simp split: list.splits)

lemma in_merge_left:
  "c \<in> set (merge_left lkey rkey combine left right) \<longleftrightarrow>
     (\<exists>l \<in> set left.
        (c = combine l None \<and> (\<forall>r \<in> set right. rkey r \<noteq> lkey l)) \<or>
        (\<exists>r \<in> set right. rkey r = lkey l \<and> c = combine l (Some r)))"
proof -
  have step: "c \<in> set (if filter P right = [] then [a] else map g (filter P right)) \<longleftrightarrow>
      (c = a \<and> (\<forall>r \<in> set right. \<not> P r)) \<or> (\<exists>r \<in> set right. P r \<and> c = g r)" for P a g
    by (auto simp add: filter_empty_conv)
  have "c \<in> set (merge_left lkey rkey combine left right) \<longleftrightarrow>
      (\<exists>l \<in> set left. c \<in> set (if filter (\<lambda>r. rkey r = lkey l) right = [] then [combine l None]
                        else map (\<lambda>r. combine l (Some r)) (filter (\<lambda>r. rkey r = lkey l) right)))"
    unfolding merge_left_if set_concat set_map by blast
  then show ?thesis
    unfolding step .
qed


lemma inv_analysis_no_velocity:
  assumes "row \<in> set (inv_analysis agg ps invs demand)"
    and "\<forall>v \<in> set (velocity agg demand). fst v \<noteq> product_id row"
  shows "avg_daily_sales row = Finite 0"
  using assms
  by (auto simp add: inv_analysis_def in_merge_left with_velocity_def fillna_def)

lemma fst_groupby_mean: "fst ` set (groupby_mean agg kvs) = fst ` set kvs"
  by (force simp add: groupby_mean_def image_iff)

lemma velocity_keys:
  "fst ` set (velocity agg demand) = dm_product_id ` set (recent_demand demand)"
  by (simp add: velocity_def fst_groupby_mean image_image)

section \<open>Days of stock\<close>

lemma column_round_999: "column_round 1 (Finite 999) = Finite 999"
  by (simp add: column_round_def fl_eval)

lemma days_of_stock_zero_sales:
  assumes "avg_daily_sales row = Finite 0"
  shows "days_of_stock row = Finite 999"
proof -
  have "fillna (Finite 999) (replace_inf (Finite 999)
      (column_div (ia_quantity_available row) (Finite 0))) = Finite 999"
    by (cases "ia_quantity_available row")
      (auto simp add: column_div_def signed_inf_def sign_of_def replace_inf_def fillna_def sgn_if)
  then show ?thesis
    unfolding days_of_stock_def assms by (simp only: column_round_999)
qed

lemma object_column_div_zero:
  assumes "frame \<noteq> []" "\<forall>r \<in> set frame. avg_daily_sales r = Finite 0"
  shows "object_column_div frame = Inl ZeroDivisionError"
  using assms by (cases frame) (simp_all add: float_div_def)

section \<open>Sorting\<close>

lemma descending_key_le:
  assumes "descending_key a \<le> descending_key b" "a \<noteq> NaN" "b \<noteq> NaN"
  shows "float_le b a"
  using assms by (cases a; cases b) (simp_all add: descending_key_def)

lemma sort_values_change_pct_set:
  "set (sort_values_change_pct recs) = set recs"
  "length (sort_values_change_pct recs) = length recs"
  by (simp_all add: sort_values_change_pct_def)

lemma sort_values_change_pct_sorted:
  assumes "\<forall>r \<in> set recs. change_pct r \<noteq> NaN"
  shows "sorted_wrt (\<lambda>a b. float_le (change_pct b) (change_pct a)) (sort_values_change_pct recs)"
proof -
  let ?out = "sort_values_change_pct recs"
  have "sorted (map (\<lambda>r. descending_key (change_pct r)) ?out)"
    unfolding sort_values_change_pct_def by (rule sorted_sort_key)
  then have keys: "sorted_wrt (\<lambda>a b. descending_key (change_pct a) \<le> descending_key (change_pct b)) ?out"
    by (simp add: sorted_map)
  show ?thesis
  proof (rule sorted_wrt_mono_rel [OF _ keys])
    fix a b
    assume "a \<in> set ?out" "b \<in> set ?out"
      and "descending_key (change_pct a) \<le> descending_key (change_pct b)"
    with assms show "float_le (change_pct b) (change_pct a)"
      by (intro descending_key_le) (simp_all add: sort_values_change_pct_set)
  qed
qed

section \<open>The example tables, evaluated\<close>

lemma val_dbl_eval:
  "val (dbl x) = (case fl x of Finite y \<Rightarrow> if fl y = Finite y then y else 0 | _ \<Rightarrow> 0)"
  by (cases "fl x") (simp_all add: val.rep_eq dbl.rep_eq is_double_def)

lemmas float_eval = fl_eval val_dbl_eval of_double_def literals float_sub_def float_div_def
  py_min_def py_max_def py_round_def signed_inf_def sign_of_def

lemmas row_eval = loop_body_def apply_rules_def rule1_test_def rule2_test_def rule3_test_def
  rule4_test_def build_recommendation_def make_row_def float_eval

lemma example_latest_demand:
  "latest_demand example_demand = [example_demand ! 0, example_demand ! 2]"
  by (simp add: latest_demand_def max_date_def example_demand_def)


lemma example_recent_demand:
  "recent_demand example_demand = [example_demand ! 0, example_demand ! 2]"
  by (simp add: recent_demand_def max_date_def seven_days_def example_demand_def)

lemma example_recent_ids: "dm_product_id ` set (recent_demand example_demand) = {1, 3}"
  unfolding example_recent_demand by (simp add: example_demand_def)

lemma example_avg_comp:
  "groupby_mean column_mean
     (map (\<lambda>c. (cp_product_id c, cp_competitor_price c)) example_competitor_prices)
     = [(2, Finite 90)]"
  by (simp add: groupby_mean_def column_mean_def example_competitor_prices_def float_eval)

lemma example_velocity: "velocity column_mean example_demand = [(1, Finite 0), (3, Finite 5)]"
  unfolding velocity_def example_recent_demand
  by (simp add: groupby_mean_def column_mean_def example_demand_def float_eval)

lemma example_reco_frame:
  "reco_frame column_mean example_products example_inventory example_demand
     example_competitor_prices = [widget_row, gadget_row, gizmo_row]"
  unfolding reco_frame_def Let_def example_avg_comp example_latest_demand
  by (simp add: merge_left_def with_inventory_def with_demand_def with_avg_comp_def cell_def
      example_products_def example_inventory_def example_demand_def
      widget_row_def gadget_row_def gizmo_row_def)

lemma example_inv_analysis:
  "inv_analysis column_mean example_products example_inventory example_demand =
     [widget_stock, gadget_stock, gizmo_stock]"
  unfolding inv_analysis_def example_velocity
  by (simp add: merge_left_def with_velocity_def fillna_def cell_def
      example_products_def example_inventory_def
      widget_stock_def gadget_stock_def gizmo_stock_def of_double_def val_dbl_eval fl_eval)

lemma widget_loop_body: "loop_body widget_row recs = Inr (recs @ [widget_rec])"
  by (simp add: row_eval widget_row_def widget_rec_def)

lemma gadget_loop_body: "loop_body gadget_row recs = Inr (recs @ [gadget_rec])"
  by (simp add: row_eval gadget_row_def gadget_rec_def)

lemma gizmo_loop_body: "loop_body gizmo_row recs = Inr (recs @ [gizmo_rec])"
  by (simp add: row_eval gizmo_row_def gizmo_rec_def)

lemma example_loop:
  "loop [widget_row, gadget_row, gizmo_row] [] = Inr [widget_rec, gadget_rec, gizmo_rec]"
  by (simp add: widget_loop_body gadget_loop_body gizmo_loop_body)

lemma example_pricing_recommendations:
  "pricing_recommendations column_mean example_data = Inr [gizmo_rec, widget_rec, gadget_rec]"
  unfolding pricing_recommendations_def
  by (simp add: example_data_def lookup_def example_reco_frame example_loop
      sort_values_change_pct_def descending_key_def widget_rec_def gadget_rec_def gizmo_rec_def
      del: loop.simps)

lemma example_days_of_stock:
  "days_of_stock widget_stock = Finite 999" "days_of_stock gadget_stock = Finite 999"
  "days_of_stock gizmo_stock = Finite 2"
  by (simp_all add: days_of_stock_def column_div_def replace_inf_def fillna_def
      column_round_def float_eval widget_stock_def gadget_stock_def gizmo_stock_def)

lemma example_tables_nonempty: "example_inventory \<noteq> []" "example_demand \<noteq> []"
  by (simp_all add: example_inventory_def example_demand_def)

lemma example_inventory_alerts:
  "inventory_alerts column_mean example_data =
     Inr ([gadget_stock, gizmo_stock], [widget_stock, gadget_stock])"
proof -
  have low: "filter (\<lambda>r. float_le (ia_quantity_available r) (ia_reorder_point r))
      [widget_stock, gadget_stock, gizmo_stock] = [gadget_stock, gizmo_stock]"
    by (simp add: widget_stock_def gadget_stock_def gizmo_stock_def)
  have slow: "filter (\<lambda>r. float_lt (Finite 30) (days_of_stock r))
      [widget_stock, gadget_stock, gizmo_stock] = [widget_stock, gadget_stock]"
    by (simp add: example_days_of_stock)
  show ?thesis
    unfolding inventory_alerts_def
    by (simp add: example_data_def lookup_def example_inv_analysis Let_def
        example_tables_nonempty low slow del: filter.simps)
qed

text \<open>The single rows.\<close>

lemma clearance_loop_body:
  "loop_body clearance_row recs =
     Inr (recs @ [\<lparr> rec_product_name = ''Sprocket'', rec_current_price = dbl 50,
        recommended_price = Finite 46, action = DECREASE, change_pct = Finite (- 8),
        reason = Some (Low_demand_excess_inventory (Finite 4)) \<rparr>])"
  by (simp add: row_eval clearance_row_def)


lemma unstocked_loop_body:
  "loop_body unstocked_row recs =
     Inr (recs @ [\<lparr> rec_product_name = ''Sprocket'', rec_current_price = dbl 100,
        recommended_price = fl (882 / 10), action = DECREASE, change_pct = fl (- (118 / 10)),
        reason = Some (Price_above_competitors (Finite 90)) \<rparr>])"
  by (simp add: row_eval unstocked_row_def)



lemma fine_bounds_loop_body:
  "loop_body fine_bounds_row recs =
     Inr (recs @ [\<lparr> rec_product_name = ''Sprocket'', rec_current_price = dbl (195 / 10),
        recommended_price = Finite 20, action = INCREASE, change_pct = fl (256 / 100),
        reason = Some (High_demand_adequate_stock (Finite 8)) \<rparr>])"
  by (simp add: row_eval fine_bounds_row_def)

lemma negative_price_loop_body:
  "loop_body negative_price_row recs =
     Inr (recs @ [\<lparr> rec_product_name = ''Sprocket'', rec_current_price = dbl (- 100),
        recommended_price = fl (- (9408 / 100)), action = DECREASE,
        change_pct = fl (- (592 / 100)),
        reason = Some (Price_above_competitors (Finite (- 96))) \<rparr>])"
  by (simp add: row_eval negative_price_row_def)

lemma penny_loop_body:
  "loop_body penny_row recs =
     Inr (recs @ [\<lparr> rec_product_name = ''Sprocket'', rec_current_price = dbl (13 / 100),
        recommended_price = fl (14 / 100), action = INCREASE, change_pct = Finite 5,
        reason = Some (High_demand_adequate_stock (Finite 8)) \<rparr>])"
  by (simp add: row_eval penny_row_def)



lemma tie_loop_body:
  "loop_body tie_row recs =
     Inr (recs @ [\<lparr> rec_product_name = ''Sprocket'', rec_current_price = dbl (399 / 100),
        recommended_price = fl (372 / 100), action = DECREASE, change_pct = fl (- (667 / 100)),
        reason = Some (Price_above_competitors (fl (38 / 10))) \<rparr>])"
  by (simp add: row_eval tie_row_def)

lemma contested_odd_cents_loop_body:
  "loop_body contested_odd_cents_row recs =
     Inr (recs @ [\<lparr> rec_product_name = ''Sprocket'', rec_current_price = dbl (199 / 10),
        recommended_price = fl (2089 / 100), action = INCREASE, change_pct = Finite 5,
        reason = Some (High_demand_adequate_stock (Finite 8)) \<rparr>])"
  by (simp add: row_eval contested_odd_cents_row_def)

lemma capped_loop_body:
  "loop_body capped_row recs =
     Inr (recs @ [\<lparr> rec_product_name = ''Sprocket'', rec_current_price = dbl 8,
        recommended_price = fl (805 / 100), action = INCREASE, change_pct = fl (63 / 100),
        reason = Some (High_demand_adequate_stock (Finite 8)) \<rparr>])"
  by (simp add: row_eval capped_row_def)

lemma quarter_loop_body:
  "loop_body quarter_row recs =
     Inr (recs @ [\<lparr> rec_product_name = ''Sprocket'', rec_current_price = dbl 2,
        recommended_price = fl (123 / 100), action = DECREASE,
        change_pct = fl (- (3875 / 100)),
        reason = Some (Price_above_competitors (Finite (125 / 100))) \<rparr>])"
  by (simp add: row_eval quarter_row_def)





text \<open>Without a demand score, or without inventory cells, only the third rule is left.\<close>

lemma apply_rules_only_rule3:
  assumes "demand_score row = NaN \<or> (quantity_available row = NaN \<and> stock_status row = None)"
  shows "apply_rules row =
          (if rule3_test row
           then (Some DECREASE, Some (Price_above_competitors (avg_competitor_price row)),
                 py_max (float_mul (avg_competitor_price row) literal_0_98)
                   (of_double (min_price row)))
           else (None, None, of_double (current_price row)))"
  using assms by (auto simp add: apply_rules_def rule1_test_def rule2_test_def rule4_test_def)

lemma loop_body_only_rule3:
  assumes "demand_score row = NaN \<or> (quantity_available row = NaN \<and> stock_status row = None)"
    and "loop_body row recs = Inr recs'"
  shows "if rule3_test row
         then \<exists>r. recs' = recs @ [r] \<and> action r = DECREASE \<and>
                reason r = Some (Price_above_competitors (avg_competitor_price row)) \<and>
                recommended_price r =
                  py_round (py_max (float_mul (avg_competitor_price row) literal_0_98)
                             (of_double (min_price row))) 2
         else recs' = recs"
proof (cases "rule3_test row")
  case False
  with assms(1) have "apply_rules row = (None, None, of_double (current_price row))"
    by (simp add: apply_rules_only_rule3)
  with assms(2) False show ?thesis
    by (simp add: loop_body_silent)
next
  case True
  with assms(1) have fired: "apply_rules row =
      (Some DECREASE, Some (Price_above_competitors (avg_competitor_price row)),
       py_max (float_mul (avg_competitor_price row) literal_0_98) (of_double (min_price row)))"
    by (simp add: apply_rules_only_rule3)
  from assms(2) obtain r where
    built: "build_recommendation row DECREASE
              (Some (Price_above_competitors (avg_competitor_price row)))
              (py_max (float_mul (avg_competitor_price row) literal_0_98)
                (of_double (min_price row))) = Inr r" and
    out: "recs' = recs @ [r]"
    unfolding loop_body_fired [OF fired] by (auto split: sum.splits)
  from True out build_recommendation_fields(2-4) [OF built] show ?thesis
    by simp
qed

section \<open>Price bounds\<close>

text \<open>
  C1, as amended. For a row with \<open>min_price \<le> current_price \<le> max_price\<close> and a
  positive current price, the price the rule chain computes is a finite float within
  \<open>[min_price, max_price]\<close>, for each of the four rules, the third included. The
  emitted \<open>recommended_price\<close> is that price rounded to 2 decimals: it lies between
  the two bounds rounded to 2 decimals, hence within the bounds themselves whenever
  these are values of 2 decimals.
\<close>

theorem recommended_price_within_bounds:
  assumes "val (min_price row) \<le> val (current_price row)"
    and "val (current_price row) \<le> val (max_price row)"
    and "0 < val (current_price row)"
    and "loop_body row recs = Inr (recs @ [r])"
  shows "\<exists>act rsn p. apply_rules row = (Some act, rsn, Finite p) \<and>
           val (min_price row) \<le> p \<and> p \<le> val (max_price row) \<and>
           recommended_price r = py_round (Finite p) 2 \<and>
           float_le (py_round (of_double (min_price row)) 2) (recommended_price r) \<and>
           float_le (recommended_price r) (py_round (of_double (max_price row)) 2) \<and>
           (py_round (of_double (min_price row)) 2 = of_double (min_price row) \<longrightarrow>
              float_le (of_double (min_price row)) (recommended_price r)) \<and>
           (py_round (of_double (max_price row)) 2 = of_double (max_price row) \<longrightarrow>
              float_le (recommended_price r) (of_double (max_price row)))"
proof -
  from assms(4) obtain act rsn price where
    fired: "apply_rules row = (Some act, rsn, price)" and
    built: "build_recommendation row act rsn price = Inr r"
    by (rule loop_body_emits)
  from apply_rules_price [OF assms(1-3) fired] obtain p where
    p: "price = Finite p" and bounds: "val (min_price row) \<le> p" "p \<le> val (max_price row)"
    by blast
  have rp: "recommended_price r = py_round (Finite p) 2"
    using built p by (simp add: build_recommendation_fields)
  have lo: "float_le (py_round (of_double (min_price row)) 2) (recommended_price r)"
    unfolding rp of_double_def using bounds(1) by (intro py_round_mono) simp
  have hi: "float_le (recommended_price r) (py_round (of_double (max_price row)) 2)"
    unfolding rp of_double_def using bounds(2) by (intro py_round_mono) simp
  from fired p bounds rp lo hi show ?thesis by auto
qed

theorem recommended_price_within_bounds_witness:
  "val (min_price widget_row) \<le> val (current_price widget_row) \<and>
   val (current_price widget_row) \<le> val (max_price widget_row) \<and>
   0 < val (current_price widget_row) \<and>
   loop_body widget_row [] = Inr [widget_rec] \<and>
   py_round (of_double (min_price widget_row)) 2 = of_double (min_price widget_row) \<and>
   py_round (of_double (max_price widget_row)) 2 = of_double (max_price widget_row) \<and>
   float_le (of_double (min_price widget_row)) (recommended_price widget_rec) \<and>
   float_le (recommended_price widget_rec) (of_double (max_price widget_row))"
proof -
  have inv: "val (min_price widget_row) \<le> val (current_price widget_row)"
    "val (current_price widget_row) \<le> val (max_price widget_row)"
    "0 < val (current_price widget_row)"
    by (simp_all add: widget_row_def float_eval)
  have emit: "loop_body widget_row [] = Inr ([] @ [widget_rec])"
    by (rule widget_loop_body)
  have cents: "py_round (of_double (min_price widget_row)) 2 = of_double (min_price widget_row)"
    "py_round (of_double (max_price widget_row)) 2 = of_double (max_price widget_row)"
    by (simp_all add: widget_row_def float_eval)
  from recommended_price_within_bounds [OF inv emit] cents
  have "float_le (of_double (min_price widget_row)) (recommended_price widget_rec)"
    "float_le (recommended_price widget_rec) (of_double (max_price widget_row))"
    by auto
  with inv emit cents show ?thesis by simp
qed

text \<open>
  C1 as stated fails on two rows that satisfy \<open>min_price \<le> current_price \<le> max_price\<close>.
  With a bound of three decimals the rounding of the clamped price leaves the bounds:
  rule 1 clamps 19.50 * 1.05 to the maximum 19.999, which is emitted as 20.00. With a
  negative price the third rule, which clamps from below only, gives a price above
  \<open>max_price\<close>.
\<close>

theorem recommended_price_bounds_counterexample:
  "(val (min_price fine_bounds_row) \<le> val (current_price fine_bounds_row) \<and>
    val (current_price fine_bounds_row) \<le> val (max_price fine_bounds_row) \<and>
    loop_body fine_bounds_row [] =
      Inr [\<lparr> rec_product_name = ''Sprocket'', rec_current_price = dbl (195 / 10),
             recommended_price = Finite 20, action = INCREASE, change_pct = fl (256 / 100),
             reason = Some (High_demand_adequate_stock (Finite 8)) \<rparr>] \<and>
    float_lt (of_double (max_price fine_bounds_row)) (Finite 20)) \<and>
   (val (min_price negative_price_row) \<le> val (current_price negative_price_row) \<and>
    val (current_price negative_price_row) \<le> val (max_price negative_price_row) \<and>
    loop_body negative_price_row [] =
      Inr [\<lparr> rec_product_name = ''Sprocket'', rec_current_price = dbl (- 100),
             recommended_price = fl (- (9408 / 100)), action = DECREASE,
             change_pct = fl (- (592 / 100)),
             reason = Some (Price_above_competitors (Finite (- 96))) \<rparr>] \<and>
    float_lt (of_double (max_price negative_price_row)) (fl (- (9408 / 100))))"
proof -
  have a: "val (min_price fine_bounds_row) \<le> val (current_price fine_bounds_row)"
    "val (current_price fine_bounds_row) \<le> val (max_price fine_bounds_row)"
    "float_lt (of_double (max_price fine_bounds_row)) (Finite 20)"
    by (simp_all add: fine_bounds_row_def make_row_def float_eval)
  have b: "val (min_price negative_price_row) \<le> val (current_price negative_price_row)"
    "val (current_price negative_price_row) \<le> val (max_price negative_price_row)"
    "float_lt (of_double (max_price negative_price_row)) (fl (- (9408 / 100)))"
    by (simp_all add: negative_price_row_def make_row_def float_eval)
  from a b fine_bounds_loop_body [of "[]"] negative_price_loop_body [of "[]"] show ?thesis
    by simp
qed

section \<open>Sign of the change\<close>

text \<open>
  C6. For every record appended for a row with \<open>min_price \<le> current_price \<le> max_price\<close>
  and a positive current price, the sign of \<open>change_pct\<close> matches the action: it is not
  negative for INCREASE and not positive for DECREASE.
\<close>

theorem change_pct_sign_matches_action:
  assumes "val (min_price row) \<le> val (current_price row)"
    and "val (current_price row) \<le> val (max_price row)"
    and "0 < val (current_price row)"
    and "loop_body row recs = Inr (recs @ [r])"
  shows "(action r = INCREASE \<longrightarrow> float_le (Finite 0) (change_pct r)) \<and>
         (action r = DECREASE \<longrightarrow> float_le (change_pct r) (Finite 0))"
proof -
  from assms(4) obtain act rsn price where
    fired: "apply_rules row = (Some act, rsn, price)" and
    built: "build_recommendation row act rsn price = Inr r"
    by (rule loop_body_emits)
  from apply_rules_price [OF assms(1-3) fired] obtain p where
    p: "price = Finite p" and
    dir: "act = INCREASE \<longrightarrow> val (current_price row) \<le> p"
      "act = DECREASE \<longrightarrow> p \<le> val (current_price row)"
    by blast
  have act: "action r = act"
    using built by (rule build_recommendation_fields)
  have pct: "change_pct r =
      py_round (float_mul (ieee_div (fl (p - val (current_price row)))
        (Finite (val (current_price row)))) (Finite 100)) 2"
    using build_recommendation_fields(5) [OF built]
    by (simp add: p of_double_def float_sub_def)
  have up: "float_le (Finite 0) (change_pct r)" if "action r = INCREASE"
  proof -
    from that act dir(1) have "0 \<le> p - val (current_price row)"
      by simp
    then show ?thesis
      unfolding pct using assms(3)
      by (intro py_round_nonneg float_mul_nonneg ieee_div_nonneg fl_nonneg) simp_all
  qed
  have down: "float_le (change_pct r) (Finite 0)" if "action r = DECREASE"
  proof -
    from that act dir(2) have "p - val (current_price row) \<le> 0"
      by simp
    then show ?thesis
      unfolding pct using assms(3)
      by (intro py_round_nonpos float_mul_nonpos ieee_div_nonpos fl_nonpos) simp_all
  qed
  from up down show ?thesis by blast
qed

theorem change_pct_sign_matches_action_witness:
  "val (min_price gadget_row) \<le> val (current_price gadget_row) \<and>
   val (current_price gadget_row) \<le> val (max_price gadget_row) \<and>
   0 < val (current_price gadget_row) \<and>
   loop_body gadget_row [] = Inr [gadget_rec] \<and>
   action gadget_rec = DECREASE \<and> float_le (change_pct gadget_rec) (Finite 0) \<and>
   val (min_price gizmo_row) \<le> val (current_price gizmo_row) \<and>
   val (current_price gizmo_row) \<le> val (max_price gizmo_row) \<and>
   0 < val (current_price gizmo_row) \<and>
   loop_body gizmo_row [] = Inr [gizmo_rec] \<and>
   action gizmo_rec = INCREASE \<and> float_le (Finite 0) (change_pct gizmo_rec)"
proof -
  have inv1: "val (min_price gadget_row) \<le> val (current_price gadget_row)"
    "val (current_price gadget_row) \<le> val (max_price gadget_row)"
    "0 < val (current_price gadget_row)"
    by (simp_all add: gadget_row_def float_eval)
  have emit1: "loop_body gadget_row [] = Inr ([] @ [gadget_rec])"
    by (rule gadget_loop_body)
  have act1: "action gadget_rec = DECREASE"
    by (simp add: gadget_rec_def)
  with change_pct_sign_matches_action [OF inv1 emit1]
  have down: "float_le (change_pct gadget_rec) (Finite 0)"
    by simp
  have inv2: "val (min_price gizmo_row) \<le> val (current_price gizmo_row)"
    "val (current_price gizmo_row) \<le> val (max_price gizmo_row)"
    "0 < val (current_price gizmo_row)"
    by (simp_all add: gizmo_row_def float_eval)
  have emit2: "loop_body gizmo_row [] = Inr ([] @ [gizmo_rec])"
    by (rule gizmo_loop_body)
  have act2: "action gizmo_rec = INCREASE"
    by (simp add: gizmo_rec_def)
  with change_pct_sign_matches_action [OF inv2 emit2]
  have up: "float_le (Finite 0) (change_pct gizmo_rec)"
    by simp
  from inv1 emit1 act1 down inv2 emit2 act2 up show ?thesis by simp
qed

section \<open>Output order\<close>

text \<open>
  C7. The list a run returns is sorted by \<open>change_pct\<close>, descending: of two adjacent
  records the earlier has a \<open>change_pct\<close> at least as large as the later. Records
  whose \<open>change_pct\<close> values are 5, -3 and 8, in this order, come out in the order
  8, 5, -3.
\<close>

theorem recommendations_sorted_descending:
  "(pricing_recommendations agg d = Inr recs \<longrightarrow>
      (\<forall>i. Suc i < length recs \<longrightarrow>
         float_le (change_pct (recs ! Suc i)) (change_pct (recs ! i)))) \<and>
   (map change_pct rs = [Finite 5, Finite (- 3), Finite 8] \<longrightarrow>
      map change_pct (sort_values_change_pct rs) = [Finite 8, Finite 5, Finite (- 3)])"
proof -
  have adjacent: "\<forall>i. Suc i < length recs \<longrightarrow>
      float_le (change_pct (recs ! Suc i)) (change_pct (recs ! i))"
    if "pricing_recommendations agg d = Inr recs"
  proof -
    from that obtain rows unsorted where run: "loop rows [] = Inr unsorted"
      and out: "recs = sort_values_change_pct unsorted"
      by (auto simp add: pricing_recommendations_def split: sum.splits)
    from loop_result [OF run] have "\<forall>r \<in> set unsorted. change_pct r \<noteq> NaN"
      by auto
    then have "sorted_wrt (\<lambda>a b. float_le (change_pct b) (change_pct a)) recs"
      unfolding out by (rule sort_values_change_pct_sorted)
    then show ?thesis
      by (simp add: sorted_wrt_iff_nth_less)
  qed
  have scenario: "map change_pct (sort_values_change_pct rs) = [Finite 8, Finite 5, Finite (- 3)]"
    if "map change_pct rs = [Finite 5, Finite (- 3), Finite 8]"
  proof -
    from that obtain a b c where "rs = [a, b, c]"
      "change_pct a = Finite 5" "change_pct b = Finite (- 3)" "change_pct c = Finite 8"
      by (auto simp add: map_eq_Cons_conv)
    then show ?thesis
      by (simp add: sort_values_change_pct_def descending_key_def)
  qed
  from adjacent scenario show ?thesis by blast
qed

theorem recommendations_sorted_descending_witness:
  "loop (reco_frame column_mean example_products example_inventory example_demand
           example_competitor_prices) []
     = Inr [widget_rec, gadget_rec, gizmo_rec] \<and>
   map change_pct [widget_rec, gadget_rec, gizmo_rec] = [Finite 5, Finite (- 3), Finite 8] \<and>
   pricing_recommendations column_mean example_data = Inr [gizmo_rec, widget_rec, gadget_rec] \<and>
   map change_pct [gizmo_rec, widget_rec, gadget_rec] = [Finite 8, Finite 5, Finite (- 3)] \<and>
   float_le (change_pct widget_rec) (change_pct gizmo_rec) \<and>
   float_le (change_pct gadget_rec) (change_pct widget_rec)"
proof -
  have run: "pricing_recommendations column_mean example_data
      = Inr [gizmo_rec, widget_rec, gadget_rec]"
    by (rule example_pricing_recommendations)
  have before: "map change_pct [widget_rec, gadget_rec, gizmo_rec]
      = [Finite 5, Finite (- 3), Finite 8]"
    by (simp add: widget_rec_def gadget_rec_def gizmo_rec_def)
  from recommendations_sorted_descending
    [of column_mean example_data "[gizmo_rec, widget_rec, gadget_rec]"
      "[widget_rec, gadget_rec, gizmo_rec]"]
    run before
  have adjacent: "\<forall>i. Suc i < 3 \<longrightarrow>
      float_le (change_pct ([gizmo_rec, widget_rec, gadget_rec] ! Suc i))
        (change_pct ([gizmo_rec, widget_rec, gadget_rec] ! i))"
    and sorted: "map change_pct (sort_values_change_pct [widget_rec, gadget_rec, gizmo_rec])
        = [Finite 8, Finite 5, Finite (- 3)]"
    by simp_all
  from adjacent [rule_format, of 0] adjacent [rule_format, of 1]
  have "float_le (change_pct widget_rec) (change_pct gizmo_rec)"
    "float_le (change_pct gadget_rec) (change_pct widget_rec)"
    by simp_all
  moreover have "map change_pct [gizmo_rec, widget_rec, gadget_rec]
      = [Finite 8, Finite 5, Finite (- 3)]"
    by (simp add: widget_rec_def gadget_rec_def gizmo_rec_def)
  ultimately show ?thesis
    using run before by (simp add: example_reco_frame example_loop del: loop.simps)
qed

section \<open>Products without a demand snapshot\<close>




section \<open>Rows without inventory\<close>

text \<open>
  C9. For a row whose inventory cells are missing after the left join
  (\<open>quantity_available\<close> and \<open>stock_status\<close> both missing), rules 1, 2 and 4 do not
  fire: the chain gives the values of rule 3 when the competitor average is known and
  \<open>current_price > avg_competitor_price * 1.05\<close>, the product taken in floats as the
  script takes it, and no action otherwise. So a record is appended for such a row by
  rule 3 and only by it.
\<close>

theorem missing_inventory_only_rule3:
  assumes "quantity_available row = NaN" "stock_status row = None"
  shows "apply_rules row =
           (if avg_competitor_price row \<noteq> NaN \<and>
               float_lt (float_mul (avg_competitor_price row) literal_1_05)
                 (of_double (current_price row))
            then (Some DECREASE, Some (Price_above_competitors (avg_competitor_price row)),
                  py_max (float_mul (avg_competitor_price row) literal_0_98)
                    (of_double (min_price row)))
            else (None, None, of_double (current_price row))) \<and>
         (loop_body row recs = Inr recs' \<longrightarrow>
            (if avg_competitor_price row \<noteq> NaN \<and>
                float_lt (float_mul (avg_competitor_price row) literal_1_05)
                  (of_double (current_price row))
             then \<exists>r. recs' = recs @ [r] \<and> action r = DECREASE \<and>
                    reason r = Some (Price_above_competitors (avg_competitor_price row)) \<and>
                    recommended_price r =
                      py_round (py_max (float_mul (avg_competitor_price row) literal_0_98)
                                 (of_double (min_price row))) 2
             else recs' = recs))"
proof -
  from assms have missing:
    "demand_score row = NaN \<or> (quantity_available row = NaN \<and> stock_status row = None)"
    by simp
  have chain: "apply_rules row =
      (if rule3_test row
       then (Some DECREASE, Some (Price_above_competitors (avg_competitor_price row)),
             py_max (float_mul (avg_competitor_price row) literal_0_98)
               (of_double (min_price row)))
       else (None, None, of_double (current_price row)))"
    by (rule apply_rules_only_rule3 [OF missing])
  have body: "loop_body row recs = Inr recs' \<longrightarrow>
      (if rule3_test row
       then \<exists>r. recs' = recs @ [r] \<and> action r = DECREASE \<and>
              reason r = Some (Price_above_competitors (avg_competitor_price row)) \<and>
              recommended_price r =
                py_round (py_max (float_mul (avg_competitor_price row) literal_0_98)
                           (of_double (min_price row))) 2
       else recs' = recs)"
    using loop_body_only_rule3 [OF missing, of recs recs'] by blast
  from chain body show ?thesis
    unfolding rule3_test_def by (rule conjI)
qed

theorem missing_inventory_only_rule3_witness:
  "quantity_available unstocked_row = NaN \<and> stock_status unstocked_row = None \<and>
   demand_score unstocked_row = Finite 9 \<and>
   avg_competitor_price unstocked_row = Finite 90 \<and>
   float_lt (float_mul (Finite 90) literal_1_05) (of_double (current_price unstocked_row)) \<and>
   apply_rules unstocked_row =
     (Some DECREASE, Some (Price_above_competitors (Finite 90)),
      py_max (float_mul (Finite 90) literal_0_98) (of_double (min_price unstocked_row))) \<and>
   loop_body unstocked_row [] =
     Inr [\<lparr> rec_product_name = ''Sprocket'', rec_current_price = dbl 100,
            recommended_price = fl (882 / 10), action = DECREASE,
            change_pct = fl (- (118 / 10)),
            reason = Some (Price_above_competitors (Finite 90)) \<rparr>] \<and>
   quantity_available tie_row = NaN \<and> stock_status tie_row = None \<and>
   avg_competitor_price tie_row = fl (38 / 10) \<and> current_price tie_row = dbl (399 / 100) \<and>
   loop_body tie_row [] =
     Inr [\<lparr> rec_product_name = ''Sprocket'', rec_current_price = dbl (399 / 100),
            recommended_price = fl (372 / 100), action = DECREASE,
            change_pct = fl (- (667 / 100)),
            reason = Some (Price_above_competitors (fl (38 / 10))) \<rparr>] \<and>
   avg_competitor_price quarter_row = Finite (125 / 100) \<and>
   loop_body quarter_row [] =
     Inr [\<lparr> rec_product_name = ''Sprocket'', rec_current_price = dbl 2,
            recommended_price = fl (123 / 100), action = DECREASE,
            change_pct = fl (- (3875 / 100)),
            reason = Some (Price_above_competitors (Finite (125 / 100))) \<rparr>]"
proof -
  have hyps: "quantity_available unstocked_row = NaN" "stock_status unstocked_row = None"
    by (simp_all add: unstocked_row_def make_row_def)
  have cells: "demand_score unstocked_row = Finite 9"
    "avg_competitor_price unstocked_row = Finite 90"
    by (simp_all add: unstocked_row_def make_row_def)
  have test: "float_lt (float_mul (Finite 90) literal_1_05)
      (of_double (current_price unstocked_row))"
    by (simp add: unstocked_row_def make_row_def float_eval)
  from missing_inventory_only_rule3 [OF hyps, of "[]" "[]"] cells test
  have rules: "apply_rules unstocked_row =
     (Some DECREASE, Some (Price_above_competitors (Finite 90)),
      py_max (float_mul (Finite 90) literal_0_98) (of_double (min_price unstocked_row)))"
    by simp
  have tie: "quantity_available tie_row = NaN" "stock_status tie_row = None"
    "avg_competitor_price tie_row = fl (38 / 10)" "current_price tie_row = dbl (399 / 100)"
    by (simp_all add: tie_row_def make_row_def)
  have quarter: "avg_competitor_price quarter_row = Finite (125 / 100)"
    by (simp add: quarter_row_def make_row_def)
  from hyps cells test rules tie quarter unstocked_loop_body [of "[]"] tie_loop_body [of "[]"]
    quarter_loop_body [of "[]"]
  show ?thesis
    by simp
qed

section \<open>Order of the rules\<close>



section \<open>Rule 1 and rule 2\<close>







section \<open>The percentage and the rounded price\<close>

text \<open>
  C10. In every record appended, \<open>recommended_price\<close> is the price the rule computed,
  rounded to 2 decimals, and \<open>change_pct\<close> is computed in floats from the price before
  rounding, as \<open>round ((price - current_price) / current_price * 100, 2)\<close>. For some
  rows this differs from the percentage recomputed from the rounded field: a price of
  0.13 under rule 1 gives the field 0.14 and a \<open>change_pct\<close> of 5, where the rounded
  field gives 7.69.
\<close>

theorem change_pct_from_unrounded_price:
  "(loop_body row recs = Inr (recs @ [r]) \<longrightarrow>
      (\<exists>act rsn price.
         apply_rules row = (Some act, rsn, price) \<and>
         recommended_price r = py_round price 2 \<and>
         change_pct r =
           py_round (float_mul (ieee_div (float_sub price (of_double (current_price row)))
                                 (of_double (current_price row))) (Finite 100)) 2)) \<and>
   (\<exists>row' r'. loop_body row' [] = Inr [r'] \<and>
      change_pct r' \<noteq>
        py_round (float_mul (ieee_div (float_sub (recommended_price r')
                                         (of_double (current_price row')))
                              (of_double (current_price row'))) (Finite 100)) 2)"
proof
  show "loop_body row recs = Inr (recs @ [r]) \<longrightarrow>
      (\<exists>act rsn price.
         apply_rules row = (Some act, rsn, price) \<and>
         recommended_price r = py_round price 2 \<and>
         change_pct r =
           py_round (float_mul (ieee_div (float_sub price (of_double (current_price row)))
                                 (of_double (current_price row))) (Finite 100)) 2)"
  proof
    assume "loop_body row recs = Inr (recs @ [r])"
    then obtain act rsn price where
      fired: "apply_rules row = (Some act, rsn, price)" and
      built: "build_recommendation row act rsn price = Inr r"
      by (rule loop_body_emits)
    from fired build_recommendation_fields(4,5) [OF built]
    show "\<exists>act rsn price.
         apply_rules row = (Some act, rsn, price) \<and>
         recommended_price r = py_round price 2 \<and>
         change_pct r =
           py_round (float_mul (ieee_div (float_sub price (of_double (current_price row)))
                                 (of_double (current_price row))) (Finite 100)) 2"
      by blast
  qed
next
  let ?r = "\<lparr> rec_product_name = ''Sprocket'', rec_current_price = dbl (13 / 100),
        recommended_price = fl (14 / 100), action = INCREASE, change_pct = Finite 5,
        reason = Some (High_demand_adequate_stock (Finite 8)) \<rparr>"
  have "loop_body penny_row [] = Inr [?r]"
    using penny_loop_body [of "[]"] by simp
  moreover have "change_pct ?r \<noteq>
        py_round (float_mul (ieee_div (float_sub (recommended_price ?r)
                                         (of_double (current_price penny_row)))
                              (of_double (current_price penny_row))) (Finite 100)) 2"
    by (simp add: penny_row_def make_row_def float_eval)
  ultimately show "\<exists>row' r'. loop_body row' [] = Inr [r'] \<and>
      change_pct r' \<noteq>
        py_round (float_mul (ieee_div (float_sub (recommended_price r')
                                         (of_double (current_price row')))
                              (of_double (current_price row'))) (Finite 100)) 2"
    by blast
qed

theorem change_pct_from_unrounded_price_witness:
  "loop_body penny_row [] =
     Inr [\<lparr> rec_product_name = ''Sprocket'', rec_current_price = dbl (13 / 100),
            recommended_price = fl (14 / 100), action = INCREASE, change_pct = Finite 5,
            reason = Some (High_demand_adequate_stock (Finite 8)) \<rparr>] \<and>
   (\<exists>act rsn price.
      apply_rules penny_row = (Some act, rsn, price) \<and>
      fl (14 / 100) = py_round price 2 \<and>
      Finite 5 =
        py_round (float_mul (ieee_div (float_sub price (of_double (current_price penny_row)))
                              (of_double (current_price penny_row))) (Finite 100)) 2) \<and>
   py_round (float_mul (ieee_div (float_sub (fl (14 / 100)) (of_double (current_price penny_row)))
                         (of_double (current_price penny_row))) (Finite 100)) 2
     = fl (769 / 100) \<and>
   loop_body capped_row [] =
     Inr [\<lparr> rec_product_name = ''Sprocket'', rec_current_price = dbl 8,
            recommended_price = fl (805 / 100), action = INCREASE,
            change_pct = fl (63 / 100),
            reason = Some (High_demand_adequate_stock (Finite 8)) \<rparr>]"
proof -
  have emit: "loop_body penny_row [] =
     Inr ([] @ [\<lparr> rec_product_name = ''Sprocket'', rec_current_price = dbl (13 / 100),
            recommended_price = fl (14 / 100), action = INCREASE, change_pct = Finite 5,
            reason = Some (High_demand_adequate_stock (Finite 8)) \<rparr>])"
    by (rule penny_loop_body)
  from change_pct_from_unrounded_price [of penny_row "[]"] emit
  have "\<exists>act rsn price.
      apply_rules penny_row = (Some act, rsn, price) \<and>
      fl (14 / 100) = py_round price 2 \<and>
      Finite 5 =
        py_round (float_mul (ieee_div (float_sub price (of_double (current_price penny_row)))
                              (of_double (current_price penny_row))) (Finite 100)) 2"
    by fastforce
  moreover have "py_round (float_mul (ieee_div (float_sub (fl (14 / 100))
        (of_double (current_price penny_row)))
      (of_double (current_price penny_row))) (Finite 100)) 2 = fl (769 / 100)"
    by (simp add: penny_row_def make_row_def float_eval)
  ultimately show ?thesis
    using emit capped_loop_body [of "[]"] by simp
qed

section \<open>Days of stock without demand rows\<close>

text \<open>
  C8. With demand rows present the columns are float columns, and a product whose
  average daily sales are zero, or which has no demand row in the window, gets 999 days
  of stock (\<open>days_of_stock_zero_sales\<close>). Not so with a demand table that has a header
  and no rows, where no product has a demand row in the window: the column
  \<open>avg_daily_sales\<close> then comes out of the merge as a column of objects, filled with
  0, and the division \<open>quantity_available / avg_daily_sales\<close> is Python's. It raises
  ZeroDivisionError at the first product, before any value is replaced by 999.
\<close>

theorem days_of_stock_raises_without_demand_rows:
  assumes "products d = Some (p # ps)" "inventory d = Some invs" "demand_metrics d = Some []"
  shows "inventory_alerts agg d = Inl ZeroDivisionError"
proof -
  let ?frame = "inv_analysis agg (p # ps) invs []"
  have no_velocity: "velocity agg [] = []"
    by (simp add: velocity_def recent_demand_def max_date_def groupby_mean_def)
  have zero: "\<forall>r \<in> set ?frame. avg_daily_sales r = Finite 0"
    by (auto intro: inv_analysis_no_velocity simp add: no_velocity)
  have "?frame \<noteq> []"
    by (auto simp add: inv_analysis_def merge_left_if no_velocity)
  then have "object_column_div ?frame = Inl ZeroDivisionError"
    using zero by (rule object_column_div_zero)
  with assms show ?thesis
    by (simp add: inventory_alerts_def lookup_def Let_def)
qed

theorem days_of_stock_raises_without_demand_rows_witness:
  "products no_demand_data = Some example_products \<and> example_products \<noteq> [] \<and>
   inventory no_demand_data = Some example_inventory \<and>
   demand_metrics no_demand_data = Some [] \<and>
   inventory_alerts column_mean no_demand_data = Inl ZeroDivisionError \<and>
   inventory_alerts column_mean example_data =
     Inr ([gadget_stock, gizmo_stock], [widget_stock, gadget_stock]) \<and>
   days_of_stock widget_stock = Finite 999 \<and> avg_daily_sales widget_stock = Finite 0 \<and>
   days_of_stock gadget_stock = Finite 999 \<and> avg_daily_sales gadget_stock = Finite 0"
proof -
  obtain p ps where split: "example_products = p # ps"
    by (simp add: example_products_def)
  have tables: "products no_demand_data = Some (p # ps)"
    "inventory no_demand_data = Some example_inventory"
    "demand_metrics no_demand_data = Some []"
    by (simp_all add: no_demand_data_def split)
  from days_of_stock_raises_without_demand_rows [OF tables]
  have "inventory_alerts column_mean no_demand_data = Inl ZeroDivisionError" .
  moreover have "example_products \<noteq> []" "products no_demand_data = Some example_products"
    by (simp_all add: split tables)
  moreover have "avg_daily_sales widget_stock = Finite 0" "avg_daily_sales gadget_stock = Finite 0"
    by (simp_all add: widget_stock_def gadget_stock_def)
  ultimately show ?thesis
    using tables(2,3) example_inventory_alerts example_days_of_stock(1,2) by simp
qed

end
